theory Spec2Isabelle
  imports Main "HOL-Library.Sublist"
begin

section \<open>Python string operations used by the converter\<close>

text \<open>
  Strings are \<open>char list\<close>. The source works on Python \<open>str\<close>; the model covers the
  ASCII range: case conversion touches only \<open>A..Z\<close>/\<open>a..z\<close>, and white space is
  the set of ASCII characters for which \<open>str.isspace\<close> holds.
\<close>

definition tab :: char where "tab = CHR 0x09"
definition nl :: char where "nl = CHR 0x0A"
definition dq :: char where "dq = CHR 0x22"
definition sq :: char where "sq = CHR 0x27"
definition bsl :: char where "bsl = CHR 0x5C"

definition is_space :: "char \<Rightarrow> bool" where
  "is_space c \<longleftrightarrow> c \<in> set [CHR 0x09, CHR 0x0A, CHR 0x0B, CHR 0x0C, CHR 0x0D,
                            CHR 0x1C, CHR 0x1D, CHR 0x1E, CHR 0x1F, CHR 0x20]"

text \<open>\<open>s.strip(chars)\<close> with the character set as a predicate, and \<open>s.strip()\<close>.\<close>

definition strip_chars :: "(char \<Rightarrow> bool) \<Rightarrow> string \<Rightarrow> string" where
  "strip_chars p s = rev (dropWhile p (rev (dropWhile p s)))"

definition strip :: "string \<Rightarrow> string" where
  "strip s = strip_chars is_space s"

text \<open>\<open>s.startswith(p)\<close>, \<open>s.endswith(p)\<close> and \<open>sub in s\<close>.\<close>

fun startswith :: "string \<Rightarrow> string \<Rightarrow> bool" where
  "startswith s [] = True"
| "startswith [] (p # ps) = False"
| "startswith (c # cs) (p # ps) = (c = p \<and> startswith cs ps)"

definition endswith :: "string \<Rightarrow> string \<Rightarrow> bool" where
  "endswith s p = startswith (rev s) (rev p)"

fun py_in :: "string \<Rightarrow> string \<Rightarrow> bool" where
  "py_in sub [] = (sub = [])"
| "py_in sub (c # cs) = (startswith (c # cs) sub \<or> py_in sub cs)"

text \<open>
  \<open>s.split(sep)\<close> for a one-character separator (every separator in the source is one
  character). The result is never empty; \<open>''.split(sep)\<close> is \<open>['']\<close>.
\<close>

fun py_split :: "char \<Rightarrow> string \<Rightarrow> string list" where
  "py_split sep [] = [[]]"
| "py_split sep (c # cs) =
     (if c = sep then [] # py_split sep cs
      else (case py_split sep cs of
              [] \<Rightarrow> [[c]]
            | w # ws \<Rightarrow> (c # w) # ws))"

text \<open>Indexing that raises \<open>IndexError\<close> in Python: \<open>None\<close> stands for the exception.\<close>

fun nth_opt :: "'a list \<Rightarrow> nat \<Rightarrow> 'a option" where
  "nth_opt [] n = None"
| "nth_opt (x # xs) 0 = Some x"
| "nth_opt (x # xs) (Suc n) = nth_opt xs n"

text \<open>
  \<open>s.replace(old, new)\<close>: occurrences are found from the left and do not overlap
  (\<open>repl\<close>, for a non-empty \<open>old\<close>: a match consumes \<open>length old\<close> characters). With
  an empty \<open>old\<close> Python inserts \<open>new\<close> before every character and at the end.
\<close>

fun repl :: "string \<Rightarrow> string \<Rightarrow> string \<Rightarrow> string" where
  "repl old new [] = []"
| "repl old new (c # cs) =
     (if startswith (c # cs) old then new @ repl old new (drop (length old - 1) cs)
      else c # repl old new cs)"

definition py_replace :: "string \<Rightarrow> string \<Rightarrow> string \<Rightarrow> string" where
  "py_replace old new s =
     (if old = [] then concat (map (\<lambda>c. new @ [c]) s) @ new else repl old new s)"

text \<open>\<open>lower\<close>, \<open>upper\<close> and \<open>capitalize\<close> on ASCII letters.\<close>

definition lower_chr :: "char \<Rightarrow> char" where
  "lower_chr c =
     (case map_of (zip ''ABCDEFGHIJKLMNOPQRSTUVWXYZ'' ''abcdefghijklmnopqrstuvwxyz'') c of
        Some d \<Rightarrow> d | None \<Rightarrow> c)"

definition upper_chr :: "char \<Rightarrow> char" where
  "upper_chr c =
     (case map_of (zip ''abcdefghijklmnopqrstuvwxyz'' ''ABCDEFGHIJKLMNOPQRSTUVWXYZ'') c of
        Some d \<Rightarrow> d | None \<Rightarrow> c)"

definition lower :: "string \<Rightarrow> string" where
  "lower s = map lower_chr s"

definition upper :: "string \<Rightarrow> string" where
  "upper s = map upper_chr s"

fun capitalize :: "string \<Rightarrow> string" where
  "capitalize [] = []"
| "capitalize (c # cs) = upper_chr c # lower cs"

text \<open>\<open>sep.join(xs)\<close>.\<close>

fun join :: "string \<Rightarrow> string list \<Rightarrow> string" where
  "join sep [] = []"
| "join sep [x] = x"
| "join sep (x # y # ys) = x @ sep @ join sep (y # ys)"

text \<open>\<open>'{0}'.format(n)\<close> for the line counter: decimal digits of a natural number.\<close>

definition digit_chr :: "nat \<Rightarrow> char" where
  "digit_chr d = (''0123456789'') ! d"

function str_nat :: "nat \<Rightarrow> string" where
  "str_nat n = (if n < 10 then [digit_chr n] else str_nat (n div 10) @ [digit_chr (n mod 10)])"
  by pat_completeness auto
termination
  by (relation "measure id") auto

declare str_nat.simps [simp del]


section \<open>The constants of the module\<close>

definition TYPE_MAP :: "(string \<times> string) list" where
  \<open>TYPE_MAP =
    [(''BooleanField'', ''bool''),
     (''IntegerField'', ''int''),
     (''BigIntegerField'', ''int64''),
     (''CharField'', ''string''),
     (''TextField'', ''string''),
     (''DateTimeField'', ''time.Time''),
     (''NullBooleanField'', ''sql.NullBool''),
     (''BinaryField'', ''byte[]'')]\<close>

text \<open>The triple-quoted text blocks, each written as its lines joined by newlines.\<close>

definition IMPORTS :: string where
  \<open>IMPORTS = join [nl]
    [''package main'',
     [],
     ''import'',
     ''('',
     [tab] @ ''"gorm.io/gorm"'',
     [tab] @ ''// Enable one from below as needed, postgres included as default'',
     [tab] @ ''"gorm.io/driver/postgres"'',
     [tab] @ ''// "gorm.io/driver/mysql"'',
     [tab] @ ''// "gorm.io/driver/sqlite"'',
     [tab] @ ''"time"'',
     [tab] @ ''"fmt"'',
     [tab] @ ''"database/sql"'',
     '')'',
     [],
     []]\<close>

definition TABLE_HELPER :: string where
  \<open>TABLE_HELPER = join [nl]
    [[],
     ''type Tabler interface {'',
     [tab] @ ''TableName() string'',
     ''}'',
     [],
     []]\<close>

definition USER_MODEL :: string where
  \<open>USER_MODEL = join [nl]
    [[],
     ''type User struct {'',
     [tab] @ ''ID'' @ [tab, tab] @ ''        int64'' @ [tab, tab] @ ''`gorm:"primaryKey"`'',
     [tab] @ ''Email'' @ [tab] @ ''        string'' @ [tab] @ ''    `gorm:"column:email"`'',
     [tab] @ ''First_name'' @ [tab] @ ''    string'' @ [tab] @ ''    `gorm:"column:first_name"`'',
     [tab] @ ''Last_name'' @ [tab] @ ''    string'' @ [tab] @ ''    `gorm:"column:last_name"`'',
     [tab] @ ''Is_superuser'' @ [tab] @ ''bool        `gorm:"column:is_superuser"`'',
     [tab] @ ''Is_staff'' @ [tab] @ ''    bool        `gorm:"column:is_staff"`'',
     [tab] @ ''Date_joined     time.Time   `gorm:"column:date_joined"`'',
     ''}'',
     [],
     ''func(User) TableName() string {'',
     [tab] @ ''return "auth_user"'',
     ''}'',
     [],
     []]\<close>

definition GROUP_MODEL :: string where
  \<open>GROUP_MODEL = join [nl]
    [[],
     ''type Group struct {'',
     [tab] @ ''ID'' @ [tab, tab] @ ''        int64'' @ [tab, tab] @ ''`gorm:"primaryKey"`'',
     [tab] @ ''Name'' @ [tab] @ ''        string'' @ [tab] @ ''    `gorm:"column:name"`'',
     ''}'',
     [],
     ''func(Group) TableName() string {'',
     [tab] @ ''return "auth_group"'',
     ''}'',
     [],
     []]\<close>

definition HELPER_REF :: string where
  \<open>HELPER_REF = join [nl]
    [[],
     ''//'',
     ''// EXAMPLE / help / reference, update this with your DB type / credentials.'',
     ''//'',
     ''func main(){'',
     ''    dsn := "host=localhost user=USER password=PWD dbname=DBNAME port=5432 TimeZone=Europe/London"'',
     ''    db, err := gorm.Open(postgres.Open(dsn), &gorm.Config{})'',
     ''    if err != nil {'',
     ''        fmt.Printf("Error connecting: %s'' @ [bsl] @ ''n", err)'',
     ''    }'',
     ''    '',
     ''    var user User'',
     ''    db.First(&user)'',
     ''    fmt.Printf("First email in User table: %s'' @ [bsl] @ ''n", user.Email)'',
     ''}'']\<close>

section \<open>The scan state of \<open>convert\<close>\<close>

text \<open>
  The local variables of \<open>convert\<close> that the loop and the nested \<open>__close_model_def\<close>
  read and write. An uncaught \<open>IndexError\<close> and the \<open>sys.exit()\<close> of the handler both
  end the run before anything is written.
\<close>

datatype error = IndexError | SystemExit

record state =
  out_lines :: "string list"
  current_model :: "string list"
  last_model_closed :: bool
  got_custom_tables :: bool
  in_model_def :: bool
  model_name :: string
  default_table_name :: string
  table_name :: string
  custom_table_name :: bool
  found_user_table :: bool
  found_group_table :: bool
  prev_line :: string
  lines :: nat
  errors :: "string list"

definition init :: state where
  "init = \<lparr>out_lines = [], current_model = [], last_model_closed = False,
            got_custom_tables = False, in_model_def = False, model_name = [],
            default_table_name = [], table_name = [], custom_table_name = False,
            found_user_table = False, found_group_table = False, prev_line = [],
            lines = 1, errors = []\<rparr>"

subsection \<open>\<open>__close_model_def\<close>\<close>

text \<open>
  Always called on \<open>current_model\<close>, which it extends in place before copying it (rewritten
  or not) to \<open>out_lines\<close>.
\<close>

definition close_model_def :: "state \<Rightarrow> state" where
  \<open>close_model_def s =
     (let cm = current_model s @ [''}'', []]
      in if custom_table_name s then
           (let cm' = cm @ [''func ('' @ model_name s @ '') TableName() string {'',
                            [tab] @ ''return "'' @ table_name s @ ''"'',
                            ''}'',
                            []];
                new_current_model =
                  map (\<lambda>ol. py_replace (default_table_name s) (table_name s) ol) cm'
            in s\<lparr>current_model := cm', out_lines := out_lines s @ new_current_model\<rparr>)
         else s\<lparr>current_model := cm, out_lines := out_lines s @ cm\<rparr>)\<close>

text \<open>The two call sites inside the loop then reset the buffer and set \<open>last_model_closed\<close>.\<close>

definition close_and_reset :: "state \<Rightarrow> state" where
  "close_and_reset s = (close_model_def s)\<lparr>last_model_closed := True, current_model := []\<rparr>"

subsection \<open>A declaration-start line\<close>

definition is_class_start :: "string \<Rightarrow> bool" where
  \<open>is_class_start l \<longleftrightarrow> startswith l ''class'' \<and> endswith l ''Model):''\<close>

definition model_name_of :: "string \<Rightarrow> string option" where
  \<open>model_name_of l =
     Option.bind (nth_opt (py_split (CHR '' '') l) 1) (\<lambda>w. nth_opt (py_split (CHR ''('') w) 0)\<close>

definition open_model :: "state \<Rightarrow> string \<Rightarrow> error + state" where
  \<open>open_model s l =
     (let s1 = (if in_model_def s then close_and_reset s else s)
      in case model_name_of l of
           None \<Rightarrow> Inl IndexError
         | Some name \<Rightarrow>
             Inr (s1\<lparr>in_model_def := True,
                     last_model_closed := False,
                     model_name := name,
                     found_user_table := (found_user_table s1 \<or> name = ''User''),
                     found_group_table := (found_group_table s1 \<or> name = ''Group''),
                     table_name := ''app_'' @ lower name @ ''s'',
                     default_table_name := ''app_'' @ lower name @ ''s'',
                     custom_table_name := False,
                     current_model := current_model s1 @ [''type '' @ name @ '' struct {'']\<rparr>))\<close>

subsection \<open>A line inside a declaration\<close>

definition is_db_table :: "state \<Rightarrow> string \<Rightarrow> bool" where
  \<open>is_db_table s l \<longleftrightarrow>
     py_in ''db_table'' l \<and> py_in ''='' l \<and> \<not> startswith l ''#''
     \<and> py_in ''class Meta:'' (prev_line s)\<close>

definition unquote :: "string \<Rightarrow> string" where
  \<open>unquote v =
     py_replace [sq] [] (py_replace [dq] []
       (py_replace (''u'' @ [sq]) [] (py_replace (''u'' @ [dq]) [] (strip v))))\<close>

definition field_type_of :: "string list \<Rightarrow> string option" where
  \<open>field_type_of field_parts =
     Option.bind (nth_opt field_parts 1) (\<lambda>rhs.
     Option.bind (nth_opt (py_split (CHR ''.'') (strip rhs)) 1) (\<lambda>seg.
     map_option strip (nth_opt (py_split (CHR ''('') seg) 0)))\<close>

definition fkeymodel_of :: "string list \<Rightarrow> string option" where
  \<open>fkeymodel_of field_parts =
     Option.bind (nth_opt field_parts 1) (\<lambda>rhs.
     Option.bind (nth_opt (py_split (CHR ''.'') (strip rhs)) 1) (\<lambda>seg.
     Option.bind (nth_opt (py_split (CHR ''('') seg) 1) (\<lambda>args.
     Option.bind (nth_opt (py_split (CHR '','') (strip args)) 0) (\<lambda>m.
     Some (strip_chars (\<lambda>c. c = CHR '')'') (strip m))))))\<close>

definition append_lines :: "string list \<Rightarrow> state \<Rightarrow> state" where
  "append_lines xs s = s\<lparr>current_model := current_model s @ xs\<rparr>"

text \<open>Lines 267 to 306: the constructor is not in \<open>TYPE_MAP\<close>.\<close>

definition relationship :: "state \<Rightarrow> string \<Rightarrow> string \<Rightarrow> string \<Rightarrow> string list \<Rightarrow> state" where
  \<open>relationship s l field_name field_type field_parts =
     (let fkeymodel = (case fkeymodel_of field_parts of None \<Rightarrow> ''########'' | Some m \<Rightarrow> m)
      in if field_type = ''ForeignKey'' then
           (let fkey = ''`gorm:"foreignKey:'' @ field_name @ ''_id;association_foreignkey:id"`'';
                self_id_field = [tab] @ capitalize field_name @ ''ID'' @ [tab, tab] @ ''int64''
                                @ [tab] @ fkey;
                fkey_field = [tab] @ capitalize field_name @ [tab, tab] @ fkeymodel
            in append_lines [self_id_field, fkey_field] s)
         else if field_type = ''ManyToManyField'' then
           (let fkey = ''`gorm:"many2many:'' @ table_name s @ ''_'' @ field_name
                       @ '';joinForeignKey:'' @ table_name s @ ''_id"`''
            in append_lines
                 [[tab, bsl] @ '' !! NOTE: m2m key relationship/name may not work'',
                  [tab] @ capitalize field_name @ [tab, tab] @ ''[]'' @ fkeymodel @ [tab] @ fkey] s)
         else if field_type = ''OneToOneField'' then
           (let fkey = ''`gorm:"foreignKey:'' @ field_name @ ''_id"`'';
                self_id_field = [tab] @ capitalize field_name @ ''ID'' @ [tab, tab] @ ''int64''
                                @ [tab] @ fkey;
                fkey_field = [tab] @ capitalize field_name @ [tab, tab] @ fkeymodel
            in append_lines [self_id_field, fkey_field] s)
         else if py_in ''getLogger'' l then s
         else if endswith (prev_line s) '','' \<or> endswith (prev_line s) [bsl] then s
         else
           append_lines
             [[tab] @ ''// !! unknown type in line '' @ str_nat (lines s) @ '', original: '' @ l]
             (s\<lparr>errors := errors s
                     @ [str_nat (lines s) @ '': Unknown/unhandled line: '' @ field_type]\<rparr>))\<close>

text \<open>The test of line 257.\<close>

definition is_primary_key :: "string \<Rightarrow> string \<Rightarrow> bool" where
  \<open>is_primary_key field_name l \<longleftrightarrow>
     field_name \<in> set [''id'', ''pk'', ''ID'', ''PK''] \<and> py_in ''primary_key'' l\<close>

text \<open>
  Lines 252 to 317. Inside the \<open>try\<close> only \<open>split('.')[1]\<close> of line 256 can raise; the
  handler records lines that mention \<open>TreeForeignKey\<close> and exits on the others.
\<close>

definition field_line :: "state \<Rightarrow> string \<Rightarrow> error + state" where
  \<open>field_line s l =
     (let field_parts = py_split (CHR ''='') l
      in case nth_opt field_parts 0 of
           None \<Rightarrow> Inl IndexError
         | Some lhs \<Rightarrow>
            (let field_name = strip lhs
             in case field_type_of field_parts of
                  None \<Rightarrow>
                    (if py_in ''TreeForeignKey'' l then
                       Inr (append_lines
                              [[tab] @ ''// !! Unhandled item in line '' @ str_nat (lines s)
                               @ '', original: '' @ l]
                              (s\<lparr>errors := errors s @ [str_nat (lines s) @ '': '' @ l]\<rparr>))
                     else Inl SystemExit)
                | Some field_type \<Rightarrow>
                    (if is_primary_key field_name l then
                       Inr (append_lines
                              [[tab] @ upper field_name @ [tab, tab] @ ''int64'' @ [tab, tab]
                               @ ''`gorm:"primaryKey"`''] s)
                     else
                       (case map_of TYPE_MAP field_type of
                          Some gotype \<Rightarrow>
                            (if gotype \<noteq> [] then
                               Inr (append_lines
                                      [[tab] @ capitalize field_name @ [tab, tab] @ gotype @ [tab]
                                       @ ''`gorm:"column:'' @ field_name @ ''"`''] s)
                             else Inr (relationship s l field_name field_type field_parts))
                        | None \<Rightarrow> Inr (relationship s l field_name field_type field_parts)))))\<close>

text \<open>Lines 238 to 317: the branch taken for a line that is not a declaration start.\<close>

definition body_line :: "state \<Rightarrow> string \<Rightarrow> error + state" where
  \<open>body_line s l =
     (if is_db_table s l then
        (case nth_opt (py_split (CHR ''='') l) 1 of
           None \<Rightarrow> Inl IndexError
         | Some v \<Rightarrow>
             Inr (s\<lparr>custom_table_name := True, got_custom_tables := True,
                     table_name := unquote v\<rparr>))
      else if startswith l [dq, dq, dq] then
        Inr (append_lines [[tab] @ ''// '' @ py_replace [dq, dq, dq] [] l] s)
      else if startswith l ''#'' then
        Inr (append_lines [[tab] @ ''// '' @ py_replace ''#'' [] l] s)
      else if py_in ''='' l \<and> py_in ''models.'' l then field_line s l
      else Inr s)\<close>

subsection \<open>One iteration of the loop, and the loop\<close>

definition step :: "state \<Rightarrow> string \<Rightarrow> error + state" where
  \<open>step s0 raw =
     (let s1 = (if startswith raw ''def '' \<and> in_model_def s0
                then close_and_reset (s0\<lparr>in_model_def := False\<rparr>) else s0);
          l = strip raw
      in case (if is_class_start l then open_model s1 l
               else if in_model_def s1 then body_line s1 l
               else Inr s1) of
           Inl e \<Rightarrow> Inl e
         | Inr s2 \<Rightarrow> Inr (s2\<lparr>prev_line := l, lines := lines s2 + 1\<rparr>))\<close>

fun scan :: "state \<Rightarrow> string list \<Rightarrow> error + state" where
  "scan s [] = Inr s"
| "scan s (raw # in_lines) =
     (case step s raw of Inl e \<Rightarrow> Inl e | Inr s' \<Rightarrow> scan s' in_lines)"

subsection \<open>After the loop: the last close and the assembly of the output\<close>

definition finish :: "state \<Rightarrow> state" where
  "finish s = (if \<not> last_model_closed s then close_model_def s else s)"

definition out_prefix :: "state \<Rightarrow> bool \<Rightarrow> bool \<Rightarrow> bool \<Rightarrow> string list" where
  "out_prefix s include_helpers auto_add_user_model auto_add_group_model =
     (if include_helpers then py_split nl IMPORTS else [])
     @ (if got_custom_tables s then py_split nl TABLE_HELPER else [])
     @ (if \<not> found_user_table s \<and> auto_add_user_model then py_split nl USER_MODEL else [])
     @ (if \<not> found_group_table s \<and> auto_add_group_model then py_split nl GROUP_MODEL else [])"

definition final_lines :: "state \<Rightarrow> bool \<Rightarrow> bool \<Rightarrow> bool \<Rightarrow> string list" where
  "final_lines s include_helpers auto_add_user_model auto_add_group_model =
     out_prefix s include_helpers auto_add_user_model auto_add_group_model @ out_lines s"

text \<open>The list \<open>out_lines\<close> of line 343, before it is joined and written.\<close>

definition convert_lines :: "string list \<Rightarrow> bool \<Rightarrow> bool \<Rightarrow> bool \<Rightarrow> error + string list" where
  "convert_lines in_lines include_helpers auto_add_user_model auto_add_group_model =
     (case scan init in_lines of
        Inl e \<Rightarrow> Inl e
      | Inr s \<Rightarrow>
          Inr (final_lines (finish s) include_helpers auto_add_user_model auto_add_group_model))"

record written =
  out_text :: string
  errors_text :: "string option"

text \<open>
  \<open>convert\<close> on an in-memory list of lines; the two files it writes are the two fields of
  the result (the \<open>.errors\<close> file only when diagnostics were recorded).
\<close>

definition convert :: "string list \<Rightarrow> bool \<Rightarrow> bool \<Rightarrow> bool \<Rightarrow> error + written" where
  "convert in_lines include_helpers auto_add_user_model auto_add_group_model =
     (case scan init in_lines of
        Inl e \<Rightarrow> Inl e
      | Inr s \<Rightarrow>
          (let s' = finish s
           in Inr \<lparr>out_text =
                     join [nl] (final_lines s' include_helpers auto_add_user_model
                                  auto_add_group_model)
                     @ (if include_helpers then HELPER_REF else []),
                   errors_text =
                     (if errors s' = [] then None else Some (join [nl] (errors s')))\<rparr>))"

section \<open>Path conditions of the loop body\<close>

text \<open>
  \<open>field_parts[0].strip()\<close>: the text left of the first \<open>=\<close>, stripped (lemma
  \<open>py_split_first\<close> relates it to the split).
\<close>

definition field_name_of :: "string \<Rightarrow> string" where
  \<open>field_name_of l = strip (takeWhile (\<lambda>c. c \<noteq> CHR ''='') l)\<close>

definition is_pk_line :: "string \<Rightarrow> bool" where
  "is_pk_line l \<longleftrightarrow> is_primary_key (field_name_of l) l"

text \<open>
  The raw line is handed to the \<open>try\<close> block of lines 252 to 317: a declaration is open,
  the line is no boundary, no table-name assignment and no comment, and it holds both
  \<open>=\<close> and \<open>models.\<close>.
\<close>

definition reaches_field_line :: "state \<Rightarrow> string \<Rightarrow> bool" where
  \<open>reaches_field_line s raw \<longleftrightarrow>
     in_model_def s \<and> \<not> startswith raw ''def '' \<and> \<not> is_class_start (strip raw)
     \<and> \<not> is_db_table s (strip raw)
     \<and> \<not> startswith (strip raw) [dq, dq, dq] \<and> \<not> startswith (strip raw) ''#''
     \<and> py_in ''='' (strip raw) \<and> py_in ''models.'' (strip raw)\<close>

text \<open>The state right after the header \<open>class Item(models.Model):\<close> on line 1.\<close>

definition item_open :: state where
  \<open>item_open = init\<lparr>current_model := [''type Item struct {''], in_model_def := True,
                      model_name := ''Item'', default_table_name := ''app_items'',
                      table_name := ''app_items'', prev_line := ''class Item(models.Model):'',
                      lines := 2\<rparr>\<close>

text \<open>Sample lines and states used to instantiate the statements below.\<close>

definition fk_line :: string where
  \<open>fk_line = ''    district = models.ForeignKey(District, null=True)''\<close>

definition o2o_line :: string where
  \<open>o2o_line = ''    user = models.OneToOneField(User, on_delete=models.CASCADE)''\<close>

definition bad_fk_line :: string where
  \<open>bad_fk_line = ''    owner = models.ForeignKey''\<close>

definition bad_o2o_line :: string where
  \<open>bad_o2o_line = ''    profile = models.OneToOneField''\<close>

definition bad_m2m_line :: string where
  \<open>bad_m2m_line = ''    tags = models.ManyToManyField''\<close>

definition db_table_line :: string where
  \<open>db_table_line = ''        db_table = "stock"''\<close>

text \<open>After the header and \<open>class Meta:\<close>; and after a further blank line.\<close>

definition meta_seen :: state where
  \<open>meta_seen = item_open\<lparr>prev_line := ''class Meta:'', lines := 3\<rparr>\<close>

definition blank_seen :: state where
  \<open>blank_seen = item_open\<lparr>prev_line := [], lines := 4\<rparr>\<close>

section \<open>Declarations in the input and an invariant of the scan\<close>

text \<open>The raw line is taken as the start of a declaration with the extracted name \<open>name\<close>.\<close>

definition declares :: "string \<Rightarrow> string \<Rightarrow> bool" where
  "declares name raw \<longleftrightarrow>
     is_class_start (strip raw) \<and> model_name_of (strip raw) = Some name"

text \<open>Two lines that only the default identity declaration \<open>USER_MODEL\<close> contains.\<close>

definition user_header :: string where
  \<open>user_header = ''type User struct {''\<close>

definition user_accessor :: string where
  \<open>user_accessor = ''func(User) TableName() string {''\<close>

text \<open>
  What the loop maintains: emitted lines differ from the accessor line of the default
  identity declaration, and from its header unless a declaration named \<open>User\<close> was seen;
  while a declaration is open the default table name is derived from its name, which
  holds no blank, and the buffer is the header followed by lines that start with a tab;
  outside a declaration the buffer is empty.
\<close>

definition safe_line :: "state \<Rightarrow> string \<Rightarrow> bool" where
  "safe_line s x \<longleftrightarrow> x \<noteq> user_accessor \<and> (x = user_header \<longrightarrow> found_user_table s)"

definition buffer_ok :: "state \<Rightarrow> bool" where
  \<open>buffer_ok s \<longleftrightarrow>
     default_table_name s = ''app_'' @ lower (model_name s) @ ''s''
     \<and> CHR '' '' \<notin> set (model_name s)
     \<and> (model_name s = ''User'' \<longrightarrow> found_user_table s)
     \<and> (\<exists>body. current_model s = (''type '' @ model_name s @ '' struct {'') # body
                \<and> (\<forall>b \<in> set body. startswith b [tab]))\<close>

definition scan_inv :: "state \<Rightarrow> bool" where
  "scan_inv s \<longleftrightarrow>
     (\<forall>x \<in> set (out_lines s). safe_line s x)
     \<and> (in_model_def s \<longrightarrow> buffer_ok s)
     \<and> (\<not> in_model_def s \<longrightarrow> current_model s = [])
     \<and> (\<not> in_model_def s \<and> \<not> last_model_closed s \<longrightarrow> \<not> custom_table_name s)"

text \<open>An input whose two declarations are named \<open>UserProfile\<close> and \<open>Users\<close>, and the
  state at the end of its scan.\<close>

definition other_names :: "string list" where
  \<open>other_names = [''class UserProfile(models.Model):'', ''class Users(models.Model):'']\<close>

definition other_names_scanned :: state where
  \<open>other_names_scanned =
     init\<lparr>out_lines := [''type UserProfile struct {'', ''}'', []],
          current_model := [''type Users struct {''], in_model_def := True,
          model_name := ''Users'', default_table_name := ''app_userss'',
          table_name := ''app_userss'', prev_line := ''class Users(models.Model):'',
          lines := 3\<rparr>\<close>

definition item_lines :: "string list" where
  \<open>item_lines = [''class Item(models.Model):'', ''    name = models.CharField(max_length=10)'']\<close>

text \<open>
  A bare name as it stands in an argument list or after \<open>models.\<close>: not empty, without
  white space and without the characters at which the extraction of lines 256 and 268
  splits or strips.
\<close>

definition bare_name :: "string \<Rightarrow> bool" where
  \<open>bare_name m \<longleftrightarrow> m \<noteq> [] \<and> (\<forall>c \<in> set m. c \<notin> set ''=.(,)'' \<and> \<not> is_space c)\<close>

text \<open>
  What may follow the first argument: the closing parenthesis that ends the line, or a
  comma and anything.
\<close>

definition arg_end :: "string \<Rightarrow> bool" where
  \<open>arg_end t \<longleftrightarrow> t = '')'' \<or> startswith t '',''\<close>

text \<open>
  The trimmed line \<open>l\<close> reads \<open><lhs>=<ws>models.<ctor>(<m><tail>\<close>: a left-hand side, blanks
  after the \<open>=\<close>, a constructor with a bare first argument \<open>m\<close>.
\<close>

definition names_related ::
    "string \<Rightarrow> string \<Rightarrow> string \<Rightarrow> string \<Rightarrow> string \<Rightarrow> string \<Rightarrow> bool" where
  \<open>names_related l lhs ws ctor m tail \<longleftrightarrow>
     l = lhs @ ''='' @ ws @ ''models.'' @ ctor @ ''('' @ m @ tail
     \<and> CHR ''='' \<notin> set lhs \<and> (\<forall>c \<in> set ws. is_space c)
     \<and> bare_name ctor \<and> bare_name m \<and> arg_end tail\<close>

section \<open>Basic facts about the string operations\<close>

lemma startswith_prefix: "startswith s p \<longleftrightarrow> prefix p s"
  by (induction s p rule: startswith.induct) auto

lemma py_in_char: "py_in [c] s \<longleftrightarrow> c \<in> set s"
  by (induction s) auto

lemma py_split_not_Nil: "py_split c s \<noteq> []"
  by (induction s) (auto split: list.splits)

lemma py_split_first: "nth_opt (py_split c s) 0 = Some (takeWhile (\<lambda>x. x \<noteq> c) s)"
  by (induction s) (auto split: list.splits simp: py_split_not_Nil)

lemma py_split_second: "c \<in> set s \<Longrightarrow> \<exists>v. nth_opt (py_split c s) 1 = Some v"
proof (induction s)
  case Nil
  then show ?case by simp
next
  case (Cons x xs)
  obtain w ws where ws: "py_split c xs = w # ws"
    using py_split_not_Nil by (cases "py_split c xs") auto
  show ?case
  proof (cases "x = c")
    case True
    with ws show ?thesis by simp
  next
    case False
    with Cons obtain v where "nth_opt (py_split c xs) 1 = Some v" by auto
    with ws False show ?thesis by simp
  qed
qed

section \<open>The loop body, branch by branch\<close>

lemma item_open_reached: \<open>scan init [''class Item(models.Model):''] = Inr item_open\<close>
  by code_simp

lemma step_field_line:
  "reaches_field_line s raw \<Longrightarrow>
   step s raw = (case field_line s (strip raw) of
                   Inl e \<Rightarrow> Inl e
                 | Inr s2 \<Rightarrow> Inr (s2\<lparr>prev_line := strip raw, lines := lines s2 + 1\<rparr>))"
  by (simp add: step_def body_line_def reaches_field_line_def Let_def)

lemma field_line_typed:
  assumes \<open>field_type_of (py_split (CHR ''='') l) = Some ft\<close> and "\<not> is_pk_line l"
  shows \<open>field_line s l =
     (case map_of TYPE_MAP ft of
        Some gotype \<Rightarrow>
          Inr (append_lines
                 [[tab] @ capitalize (field_name_of l) @ [tab, tab] @ gotype @ [tab]
                  @ ''`gorm:"column:'' @ field_name_of l @ ''"`''] s)
      | None \<Rightarrow> Inr (relationship s l (field_name_of l) ft (py_split (CHR ''='') l)))\<close>
proof -
  have nonempty: "gotype \<noteq> []" if "map_of TYPE_MAP ft = Some gotype" for gotype
    using that by (auto simp: TYPE_MAP_def split: if_splits)
  show ?thesis
    using assms
    by (auto simp: field_line_def Let_def py_split_first field_name_of_def is_pk_line_def
        dest: nonempty split: option.splits)
qed

lemma field_line_pk:
  assumes \<open>field_type_of (py_split (CHR ''='') l) = Some ft\<close> and "is_pk_line l"
  shows \<open>field_line s l =
     Inr (append_lines [[tab] @ upper (field_name_of l) @ [tab, tab] @ ''int64'' @ [tab, tab]
                        @ ''`gorm:"primaryKey"`''] s)\<close>
  using assms
  by (simp add: field_line_def Let_def py_split_first field_name_of_def is_pk_line_def)

lemma field_line_untyped:
  assumes \<open>field_type_of (py_split (CHR ''='') l) = None\<close>
  shows \<open>field_line s l =
     (if py_in ''TreeForeignKey'' l then
        Inr (append_lines
               [[tab] @ ''// !! Unhandled item in line '' @ str_nat (lines s)
                @ '', original: '' @ l]
               (s\<lparr>errors := errors s @ [str_nat (lines s) @ '': '' @ l]\<rparr>))
      else Inl SystemExit)\<close>
  using assms
  by (simp add: field_line_def Let_def py_split_first)

lemma relationship_table_fields:
  "custom_table_name (relationship s l fn ft fp) = custom_table_name s
   \<and> table_name (relationship s l fn ft fp) = table_name s
   \<and> got_custom_tables (relationship s l fn ft fp) = got_custom_tables s"
  by (simp add: relationship_def append_lines_def Let_def)

lemma field_line_table_fields:
  assumes "field_line s l = Inr s'"
  shows "custom_table_name s' = custom_table_name s \<and> table_name s' = table_name s
         \<and> got_custom_tables s' = got_custom_tables s"
proof (cases \<open>field_type_of (py_split (CHR ''='') l)\<close>)
  case None
  from assms show ?thesis
    unfolding field_line_untyped[OF None]
    by (auto simp: append_lines_def split: if_splits)
next
  case (Some ft)
  show ?thesis
  proof (cases "is_pk_line l")
    case True
    from assms show ?thesis
      unfolding field_line_pk[OF Some True] by (auto simp: append_lines_def)
  next
    case False
    from assms show ?thesis
      unfolding field_line_typed[OF Some False]
      by (cases "map_of TYPE_MAP ft") (auto simp: append_lines_def relationship_table_fields)
  qed
qed

lemma body_line_table_fields:
  assumes "body_line s l = Inr s'" and "\<not> is_db_table s l"
  shows "custom_table_name s' = custom_table_name s \<and> table_name s' = table_name s
         \<and> got_custom_tables s' = got_custom_tables s"
proof (cases \<open>py_in ''='' l \<and> py_in ''models.'' l \<and> \<not> startswith l [dq, dq, dq]
              \<and> \<not> startswith l ''#''\<close>)
  case True
  with assms have "field_line s l = Inr s'"
    by (simp add: body_line_def)
  then show ?thesis by (rule field_line_table_fields)
next
  case False
  with assms show ?thesis
    by (auto simp: body_line_def append_lines_def split: if_splits)
qed

lemma step_not_class:
  assumes "\<not> in_model_def s" and "\<not> is_class_start (strip raw)"
  shows "step s raw = Inr (s\<lparr>prev_line := strip raw, lines := lines s + 1\<rparr>)"
  using assms by (simp add: step_def Let_def)

lemma scan_no_class:
  assumes "\<not> in_model_def s" and "\<forall>raw \<in> set in_lines. \<not> is_class_start (strip raw)"
  shows "\<exists>s'. scan s in_lines = Inr s' \<and> out_lines s' = out_lines s
          \<and> current_model s' = current_model s \<and> \<not> in_model_def s'
          \<and> last_model_closed s' = last_model_closed s
          \<and> custom_table_name s' = custom_table_name s
          \<and> got_custom_tables s' = got_custom_tables s
          \<and> found_user_table s' = found_user_table s
          \<and> found_group_table s' = found_group_table s \<and> errors s' = errors s"
  using assms
proof (induction in_lines arbitrary: s)
  case Nil
  then show ?case by simp
next
  case (Cons raw in_lines)
  let ?s1 = "s\<lparr>prev_line := strip raw, lines := lines s + 1\<rparr>"
  from Cons.prems have st: "step s raw = Inr ?s1"
    by (simp add: step_not_class)
  from Cons.prems have "\<not> in_model_def ?s1" by simp
  from Cons.IH[OF this] Cons.prems(2) st show ?case by simp
qed
section \<open>Closing a declaration with an explicit table name\<close>

text \<open>
  Claim C1. The rewriting loop of lines 197-199 runs over the whole buffer, after the
  accessor lines of lines 190-191 were appended to it. These already hold the explicit
  identifier, so when the explicit identifier contains the default one (here
  \<open>app_items_v2\<close> for the default \<open>app_items\<close>) the accessor is rewritten a second time:
  the many-to-many tag, rendered against the default before \<open>db_table\<close> was seen, comes out
  with \<open>app_items_v2\<close>, but \<open>TableName\<close> returns \<open>app_items_v2_v2\<close> instead of the
  explicit identifier.
\<close>

theorem explicit_table_name_rewritten_twice:
  \<open>convert_lines [''class Item(models.Model):'',
                   ''    tags = models.ManyToManyField(Tag)'',
                   ''    class Meta:'',
                   ''        db_table = "app_items_v2"'']
      False False False
   = Inr (py_split nl TABLE_HELPER
          @ [''type Item struct {'',
             [tab, bsl] @ '' !! NOTE: m2m key relationship/name may not work'',
             [tab] @ ''Tags'' @ [tab, tab] @ ''[]Tag'' @ [tab]
               @ ''`gorm:"many2many:app_items_v2_tags;joinForeignKey:app_items_v2_id"`'',
             ''}'',
             [],
             ''func (Item) TableName() string {'',
             [tab] @ ''return "app_items_v2_v2"'',
             ''}'',
             []])\<close>
  by code_simp

text \<open>
  With an explicit identifier that does not contain the default one, the same input gives
  what the claim describes.
\<close>

lemma explicit_table_name_rewrites_tags:
  \<open>convert_lines [''class Item(models.Model):'',
                   ''    tags = models.ManyToManyField(Tag)'',
                   ''    class Meta:'',
                   ''        db_table = "inventory"'']
      False False False
   = Inr (py_split nl TABLE_HELPER
          @ [''type Item struct {'',
             [tab, bsl] @ '' !! NOTE: m2m key relationship/name may not work'',
             [tab] @ ''Tags'' @ [tab, tab] @ ''[]Tag'' @ [tab]
               @ ''`gorm:"many2many:inventory_tags;joinForeignKey:inventory_id"`'',
             ''}'',
             [],
             ''func (Item) TableName() string {'',
             [tab] @ ''return "inventory"'',
             ''}'',
             []])\<close>
  by code_simp


section \<open>Closing a declaration without an explicit table name\<close>

text \<open>
  Claim C2, counterexample. One declaration with one field and no \<open>db_table\<close>: the claim
  expects a \<open>TableName\<close> function returning \<open>app_items\<close> after the close marker; the
  output ends with the close marker and an empty line.
\<close>

theorem close_without_custom_table_no_accessor:
  \<open>convert_lines [''class Item(models.Model):'', ''    name = models.CharField(max_length=10)'']
      False False False
   = Inr [''type Item struct {'',
          [tab] @ ''Name'' @ [tab, tab] @ ''string'' @ [tab] @ ''`gorm:"column:name"`'',
          ''}'',
          []]\<close>
  by code_simp

text \<open>
  Claim C2, as amended: when no explicit table identifier was recorded, closing the
  declaration appends its buffered lines unchanged, followed by the close marker \<open>}\<close> and an
  empty line, and nothing else: no \<open>TableName\<close> accessor is emitted.
\<close>

theorem close_without_custom_table:
  assumes "\<not> custom_table_name s"
  shows \<open>out_lines (close_model_def s) = out_lines s @ current_model s @ [''}'', []]\<close>
  using assms by (simp add: close_model_def_def Let_def)

theorem close_without_custom_table_witness:
  \<open>\<not> custom_table_name item_open
   \<and> out_lines (close_model_def item_open) = [''type Item struct {'', ''}'', []]\<close>
proof -
  have h: "\<not> custom_table_name item_open" by code_simp
  have o: "out_lines item_open = []" by code_simp
  have c: \<open>current_model item_open = [''type Item struct {'']\<close> by code_simp
  from close_without_custom_table[OF h]
  have \<open>out_lines (close_model_def item_open)
         = out_lines item_open @ current_model item_open @ [''}'', []]\<close> .
  then have \<open>out_lines (close_model_def item_open) = [''type Item struct {'', ''}'', []]\<close>
    by (simp only: o c append.simps)
  with h show ?thesis by blast
qed

section \<open>Input without declarations\<close>

text \<open>
  Claim C3. With every scaffolding block disabled, an input without any declaration should
  give an empty output. The final \<open>__close_model_def\<close> of line 323 runs although no
  declaration was ever opened (\<open>last_model_closed\<close> starts as \<open>False\<close>), so the output is
  a stray close marker and an empty line.
\<close>

theorem no_declaration_stray_close:
  \<open>convert_lines [''from django.db import models'', ''import os''] False False False
   = Inr [''}'', []]\<close>
  by code_simp

text \<open>The same at every input without a declaration start, for every toggle.\<close>

lemma no_declaration_output:
  assumes "\<forall>raw \<in> set in_lines. \<not> is_class_start (strip raw)"
  shows \<open>convert_lines in_lines h u g
          = Inr ((if h then py_split nl IMPORTS else [])
                 @ (if u then py_split nl USER_MODEL else [])
                 @ (if g then py_split nl GROUP_MODEL else [])
                 @ [''}'', []])\<close>
proof -
  have "\<not> in_model_def init" by (simp add: init_def)
  from scan_no_class[OF this assms] obtain s where s: "scan init in_lines = Inr s"
    "out_lines s = []" "current_model s = []" "\<not> last_model_closed s"
    "\<not> custom_table_name s" "\<not> got_custom_tables s" "\<not> found_user_table s"
    "\<not> found_group_table s"
    by (auto simp: init_def)
  then show ?thesis
    by (simp add: convert_lines_def final_lines_def finish_def out_prefix_def
        close_model_def_def Let_def)
qed

section \<open>Lines that are silently dropped\<close>

text \<open>
  Claim C10: while a declaration is open, a line that is no boundary (no unindented
  \<open>def\<close>, no declaration start), that is not the table-name assignment, does not start with
  a docstring or comment marker and does not hold both \<open>=\<close> and \<open>models.\<close> changes
  nothing but the remembered previous line and the line counter: no output line, no
  diagnostic.
\<close>

theorem other_lines_dropped:
  assumes "in_model_def s" and \<open>\<not> startswith raw ''def ''\<close> and "\<not> is_class_start (strip raw)"
    and "\<not> is_db_table s (strip raw)"
    and \<open>\<not> startswith (strip raw) [dq, dq, dq]\<close> and \<open>\<not> startswith (strip raw) ''#''\<close>
    and \<open>\<not> (py_in ''='' (strip raw) \<and> py_in ''models.'' (strip raw))\<close>
  shows "step s raw = Inr (s\<lparr>prev_line := strip raw, lines := lines s + 1\<rparr>)"
  using assms by (auto simp add: step_def body_line_def Let_def)

theorem other_lines_dropped_witness:
  \<open>in_model_def item_open
   \<and> \<not> startswith ''    def save(self, *args, **kwargs):'' ''def ''
   \<and> \<not> is_class_start (strip ''    def save(self, *args, **kwargs):'')
   \<and> \<not> is_db_table item_open (strip ''    def save(self, *args, **kwargs):'')
   \<and> \<not> startswith (strip ''    def save(self, *args, **kwargs):'') [dq, dq, dq]
   \<and> \<not> startswith (strip ''    def save(self, *args, **kwargs):'') ''#''
   \<and> \<not> (py_in ''='' (strip ''    def save(self, *args, **kwargs):'')
          \<and> py_in ''models.'' (strip ''    def save(self, *args, **kwargs):''))
   \<and> step item_open ''    def save(self, *args, **kwargs):''
       = Inr (item_open\<lparr>prev_line := ''def save(self, *args, **kwargs):'', lines := 3\<rparr>)\<close>
proof -
  have h1: "in_model_def item_open" by code_simp
  have h2: \<open>\<not> startswith ''    def save(self, *args, **kwargs):'' ''def ''\<close> by code_simp
  have h3: \<open>\<not> is_class_start (strip ''    def save(self, *args, **kwargs):'')\<close> by code_simp
  have h4: \<open>\<not> is_db_table item_open (strip ''    def save(self, *args, **kwargs):'')\<close>
    by code_simp
  have h5: \<open>\<not> startswith (strip ''    def save(self, *args, **kwargs):'') [dq, dq, dq]\<close>
    by code_simp
  have h6: \<open>\<not> startswith (strip ''    def save(self, *args, **kwargs):'') ''#''\<close> by code_simp
  have h7: \<open>\<not> (py_in ''='' (strip ''    def save(self, *args, **kwargs):'')
                \<and> py_in ''models.'' (strip ''    def save(self, *args, **kwargs):''))\<close>
    by code_simp
  have v: \<open>strip ''    def save(self, *args, **kwargs):'' = ''def save(self, *args, **kwargs):''\<close>
    by code_simp
  have n: "lines item_open + 1 = 3" by code_simp
  from other_lines_dropped[OF h1 h2 h3 h4 h5 h6 h7]
  have \<open>step item_open ''    def save(self, *args, **kwargs):''
        = Inr (item_open\<lparr>prev_line := strip ''    def save(self, *args, **kwargs):'',
                          lines := lines item_open + 1\<rparr>)\<close> .
  then have \<open>step item_open ''    def save(self, *args, **kwargs):''
        = Inr (item_open\<lparr>prev_line := ''def save(self, *args, **kwargs):'', lines := 3\<rparr>)\<close>
    by (simp only: v n)
  with h1 h2 h3 h4 h5 h6 h7 show ?thesis by blast
qed

section \<open>Extraction of the field name, the constructor and the related name\<close>

lemma py_split_at: "c \<notin> set a \<Longrightarrow> py_split c (a @ c # b) = a # py_split c b"
  by (induction a) (auto split: list.splits simp: py_split_not_Nil)

lemma py_split_none: "c \<notin> set a \<Longrightarrow> py_split c a = [a]"
  by (induction a) (auto split: list.splits)

lemma rstrip_append:
  "\<not> p c \<Longrightarrow> rev (dropWhile p (rev (a @ c # b))) = a @ c # rev (dropWhile p (rev b))"
  by (simp add: dropWhile_append)

lemma rstrip_none: "\<forall>c \<in> set a. \<not> p c \<Longrightarrow> rev (dropWhile p (rev a)) = a"
  by (cases a rule: rev_cases) auto

lemma lstrip_none: "a \<noteq> [] \<Longrightarrow> \<not> p (hd a) \<Longrightarrow> dropWhile p (a @ b) = a @ b"
  by (cases a) auto

lemma lstrip_blanks:
  "\<forall>c \<in> set ws. p c \<Longrightarrow> dropWhile p (ws @ b) = dropWhile p b"
  by (simp add: dropWhile_append)

lemma strip_chars_none:
  assumes "\<forall>c \<in> set a. \<not> p c"
  shows "strip_chars p a = a"
proof -
  from assms have "dropWhile p a = a" by (cases a) auto
  with assms show ?thesis by (simp add: strip_chars_def rstrip_none)
qed

lemma takeWhile_to: "\<forall>x \<in> set a. x \<noteq> c \<Longrightarrow> takeWhile (\<lambda>x. x \<noteq> c) (a @ c # b) = a"
  by (simp add: takeWhile_append)

lemma takeWhile_past:
  "\<forall>x \<in> set a. x \<noteq> c \<Longrightarrow> takeWhile (\<lambda>x. x \<noteq> c) (a @ b) = a @ takeWhile (\<lambda>x. x \<noteq> c) b"
  by (simp add: takeWhile_append)

lemma bare_nameD:
  assumes "bare_name m"
  shows "m \<noteq> []" "\<forall>c \<in> set m. \<not> is_space c"
    "CHR ''='' \<notin> set m" "CHR ''.'' \<notin> set m" "CHR ''('' \<notin> set m"
    "CHR '','' \<notin> set m" "CHR '')'' \<notin> set m"
  using assms by (auto simp: bare_name_def)

lemma bare_name_strip: "bare_name m \<Longrightarrow> strip m = m"
  by (simp add: strip_def strip_chars_none bare_nameD)

lemma blank_not_sep:
  "is_space c \<Longrightarrow> c \<noteq> CHR ''='' \<and> c \<noteq> CHR ''m''"
  by (auto simp: is_space_def)

lemma arg_end_cases:
  assumes "arg_end t"
  obtains \<open>t = '')''\<close> | r where \<open>t = CHR '','' # r\<close>
  using assms by (cases t) (auto simp: arg_end_def)

lemma arg_end_takeWhile:
  assumes "arg_end t" and \<open>c \<noteq> CHR '',''\<close> and \<open>c \<noteq> CHR '')''\<close>
  shows "arg_end (takeWhile (\<lambda>x. x \<noteq> c) t)"
  using assms(1)
  by (cases rule: arg_end_cases) (use assms(2,3) in \<open>auto simp: arg_end_def\<close>)

lemma arg_end_rstrip:
  assumes "arg_end t"
  obtains t' where "arg_end t'" and "rev (dropWhile is_space (rev (X @ t))) = X @ t'"
  using assms
proof (cases rule: arg_end_cases)
  case 1
  have \<open>rev (dropWhile is_space (rev (X @ CHR '')'' # []))) = X @ CHR '')'' # rev (dropWhile is_space (rev []))\<close>
    by (rule rstrip_append) (simp add: is_space_def)
  with 1 that[of \<open>'')''\<close>] show ?thesis by (simp add: arg_end_def)
next
  case (2 r)
  have \<open>rev (dropWhile is_space (rev (X @ CHR '','' # r))) = X @ CHR '','' # rev (dropWhile is_space (rev r))\<close>
    by (rule rstrip_append) (simp add: is_space_def)
  with 2 that[of \<open>CHR '','' # rev (dropWhile is_space (rev r))\<close>] show ?thesis
    by (simp add: arg_end_def)
qed

lemma first_argument:
  assumes "bare_name m" and "arg_end t"
  shows \<open>strip_chars (\<lambda>c. c = CHR '')'') (strip (takeWhile (\<lambda>x. x \<noteq> CHR '','') (m @ t))) = m\<close>
  using assms(2)
proof (cases rule: arg_end_cases)
  case 1
  note b = bare_nameD[OF assms(1)]
  have tw: \<open>takeWhile (\<lambda>x. x \<noteq> CHR '','') (m @ t) = m @ '')''\<close>
    using b 1 by (auto simp: takeWhile_append)
  have \<open>\<forall>c \<in> set (m @ '')''). \<not> is_space c\<close>
    using b by (auto simp: is_space_def)
  then have st: \<open>strip (m @ '')'') = m @ '')''\<close>
    by (simp add: strip_def strip_chars_none)
  have \<open>dropWhile (\<lambda>c. c = CHR '')'') (m @ '')'') = m @ '')''\<close>
    using b by (cases m) auto
  moreover have \<open>rev (dropWhile (\<lambda>c. c = CHR '')'') (rev (m @ '')''))) = m\<close>
    using b rstrip_none[of m \<open>\<lambda>c. c = CHR '')''\<close>] by auto
  ultimately have \<open>strip_chars (\<lambda>c. c = CHR '')'') (m @ '')'') = m\<close>
    by (simp add: strip_chars_def)
  with tw st show ?thesis by simp
next
  case (2 r)
  note b = bare_nameD[OF assms(1)]
  have tw: \<open>takeWhile (\<lambda>x. x \<noteq> CHR '','') (m @ t) = m\<close>
    using b 2 by (auto simp: takeWhile_append)
  have \<open>strip_chars (\<lambda>c. c = CHR '')'') m = m\<close>
    using b by (auto intro: strip_chars_none)
  with tw bare_name_strip[OF assms(1)] show ?thesis by simp
qed

lemma related_name_extracted:
  assumes "names_related l lhs ws ctor m tail"
  shows "field_name_of l = strip lhs"
    and \<open>field_type_of (py_split (CHR ''='') l) = Some ctor\<close>
    and \<open>fkeymodel_of (py_split (CHR ''='') l) = Some m\<close>
proof -
  from assms have l: \<open>l = lhs @ CHR ''='' # (ws @ ''models.'' @ ctor @ CHR ''('' # m @ tail)\<close>
    and lhs: \<open>CHR ''='' \<notin> set lhs\<close> and ws: "\<forall>c \<in> set ws. is_space c"
    and bc: "bare_name ctor" and bm: "bare_name m" and t0: "arg_end tail"
    by (simp_all add: names_related_def)
  note c = bare_nameD[OF bc] and m = bare_nameD[OF bm]
  \<comment> \<open>\<open>field_parts[0]\<close> and \<open>field_parts[1]\<close>\<close>
  have parts: \<open>py_split (CHR ''='') l
               = lhs # py_split (CHR ''='') (ws @ ''models.'' @ ctor @ CHR ''('' # m @ tail)\<close>
    unfolding l using lhs by (rule py_split_at)
  have \<open>takeWhile (\<lambda>x. x \<noteq> CHR ''='') l = lhs\<close>
    unfolding l using lhs by (intro takeWhile_to) auto
  then show "field_name_of l = strip lhs"
    by (simp add: field_name_of_def)
  define t1 where \<open>t1 = takeWhile (\<lambda>x. x \<noteq> CHR ''='') tail\<close>
  have t1: "arg_end t1"
    unfolding t1_def using t0 by (rule arg_end_takeWhile) simp_all
  have \<open>takeWhile (\<lambda>x. x \<noteq> CHR ''='') ((ws @ ''models.'' @ ctor @ CHR ''('' # m) @ tail)
        = (ws @ ''models.'' @ ctor @ CHR ''('' # m) @ t1\<close>
    unfolding t1_def using ws c m by (intro takeWhile_past) (auto dest: blank_not_sep)
  then have rhs: \<open>nth_opt (py_split (CHR ''='') l) 1
                  = Some (ws @ (''models.'' @ ctor @ CHR ''('' # m) @ t1)\<close>
    by (simp add: parts py_split_first)
  \<comment> \<open>\<open>.strip()\<close>\<close>
  obtain t2 where t2: "arg_end t2"
    and \<open>rev (dropWhile is_space (rev ((''models.'' @ ctor @ CHR ''('' # m) @ t1)))
         = (''models.'' @ ctor @ CHR ''('' # m) @ t2\<close>
    using t1 by (rule arg_end_rstrip)
  moreover have \<open>dropWhile is_space (ws @ (''models.'' @ ctor @ CHR ''('' # m) @ t1)
                 = (''models.'' @ ctor @ CHR ''('' # m) @ t1\<close>
    using ws by (simp add: dropWhile_append is_space_def)
  ultimately have stripped: \<open>strip (ws @ (''models.'' @ ctor @ CHR ''('' # m) @ t1)
                             = ''models'' @ CHR ''.'' # (ctor @ CHR ''('' # m @ t2)\<close>
    by (simp add: strip_def strip_chars_def)
  \<comment> \<open>\<open>.split('.')[1]\<close>\<close>
  define t3 where \<open>t3 = takeWhile (\<lambda>x. x \<noteq> CHR ''.'') t2\<close>
  have t3: "arg_end t3"
    unfolding t3_def using t2 by (rule arg_end_takeWhile) simp_all
  have \<open>py_split (CHR ''.'') (''models'' @ CHR ''.'' # (ctor @ CHR ''('' # m @ t2))
        = ''models'' # py_split (CHR ''.'') (ctor @ CHR ''('' # m @ t2)\<close>
    by (rule py_split_at) simp
  moreover have \<open>takeWhile (\<lambda>x. x \<noteq> CHR ''.'') ((ctor @ CHR ''('' # m) @ t2)
                 = (ctor @ CHR ''('' # m) @ t3\<close>
    unfolding t3_def using c m by (intro takeWhile_past) auto
  ultimately have seg: \<open>nth_opt (py_split (CHR ''.'')
                            (''models'' @ CHR ''.'' # (ctor @ CHR ''('' # m @ t2))) 1
                        = Some (ctor @ CHR ''('' # (m @ t3))\<close>
    by (simp add: py_split_first)
  \<comment> \<open>\<open>.split('(')\<close>\<close>
  define t4 where \<open>t4 = takeWhile (\<lambda>x. x \<noteq> CHR ''('') t3\<close>
  have t4: "arg_end t4"
    unfolding t4_def using t3 by (rule arg_end_takeWhile) simp_all
  have sp: \<open>py_split (CHR ''('') (ctor @ CHR ''('' # (m @ t3))
            = ctor # py_split (CHR ''('') (m @ t3)\<close>
    using c by (intro py_split_at) simp
  have \<open>takeWhile (\<lambda>x. x \<noteq> CHR ''('') (m @ t3) = m @ t4\<close>
    unfolding t4_def using m by (intro takeWhile_past) auto
  then have args: \<open>nth_opt (py_split (CHR ''('') (ctor @ CHR ''('' # (m @ t3))) 1
                   = Some (m @ t4)\<close>
    by (simp add: sp py_split_first)
  have ctor: \<open>nth_opt (py_split (CHR ''('') (ctor @ CHR ''('' # (m @ t3))) 0 = Some ctor\<close>
    by (simp add: sp)
  from rhs stripped seg ctor show \<open>field_type_of (py_split (CHR ''='') l) = Some ctor\<close>
    by (simp add: field_type_of_def bare_name_strip[OF bc])
  \<comment> \<open>\<open>.strip().split(',')[0].strip().strip(')')\<close>\<close>
  obtain t5 where t5: "arg_end t5"
    and \<open>rev (dropWhile is_space (rev (m @ t4))) = m @ t5\<close>
    using t4 by (rule arg_end_rstrip)
  moreover have "dropWhile is_space (m @ t4) = m @ t4"
    using m by (intro lstrip_none) (auto simp: hd_in_set)
  ultimately have sa: "strip (m @ t4) = m @ t5"
    by (simp add: strip_def strip_chars_def)
  have \<open>strip_chars (\<lambda>c. c = CHR '')'')
          (strip (takeWhile (\<lambda>x. x \<noteq> CHR '','') (m @ t5))) = m\<close>
    using bm t5 by (rule first_argument)
  with rhs stripped seg args sa show \<open>fkeymodel_of (py_split (CHR ''='') l) = Some m\<close>
    by (simp add: fkeymodel_of_def py_split_first)
qed

section \<open>Scalar string fields\<close>

text \<open>
  Claim C5, counterexample. The field name \<open>firstName\<close> is mixed-case: the field is
  emitted as \<open>Firstname\<close> of type \<open>string\<close>, but its column tag is \<open>firstName\<close>, the
  name as written, and not its lowercase form \<open>firstname\<close>.
\<close>

theorem string_field_mixed_case_tag:
  \<open>convert_lines [''class Item(models.Model):'',
                   ''    firstName = models.CharField(max_length=30)'']
      False False False
   = Inr [''type Item struct {'',
          [tab] @ ''Firstname'' @ [tab, tab] @ ''string'' @ [tab]
            @ ''`gorm:"column:firstName"`'',
          ''}'',
          []]\<close>
  by code_simp

text \<open>
  Claim C5, as amended: a field line that reaches the type table (it is not the
  primary-key case of line 257) and whose constructor is \<open>CharField\<close> or \<open>TextField\<close>
  appends exactly one line: the capitalized field name, the type \<open>string\<close>, and a column tag
  holding the source field name exactly as written (its case is kept, so the tag is
  lowercase only when the source name is).
\<close>

theorem string_field_entry:
  assumes "reaches_field_line s raw" and "\<not> is_pk_line (strip raw)"
    and \<open>field_type_of (py_split (CHR ''='') (strip raw)) = Some ft\<close>
    and \<open>ft = ''CharField'' \<or> ft = ''TextField''\<close>
  shows \<open>step s raw =
     Inr (s\<lparr>current_model := current_model s
                @ [[tab] @ capitalize (field_name_of (strip raw)) @ [tab, tab] @ ''string''
                   @ [tab] @ ''`gorm:"column:'' @ field_name_of (strip raw) @ ''"`''],
             prev_line := strip raw, lines := lines s + 1\<rparr>)\<close>
proof -
  from assms(4) have \<open>map_of TYPE_MAP ft = Some ''string''\<close>
    by (auto simp: TYPE_MAP_def)
  with assms(1-3) show ?thesis
    by (simp add: step_field_line field_line_typed append_lines_def)
qed

theorem string_field_entry_witness:
  \<open>reaches_field_line item_open ''    Language = models.CharField(max_length=20, default="en")''
   \<and> \<not> is_pk_line (strip ''    Language = models.CharField(max_length=20, default="en")'')
   \<and> field_type_of (py_split (CHR ''='')
         (strip ''    Language = models.CharField(max_length=20, default="en")''))
       = Some ''CharField''
   \<and> (''CharField'' = ''CharField'' \<or> ''CharField'' = ''TextField'')
   \<and> step item_open ''    Language = models.CharField(max_length=20, default="en")''
       = Inr (item_open\<lparr>current_model :=
                [''type Item struct {'',
                 [tab] @ ''Language'' @ [tab, tab] @ ''string'' @ [tab]
                   @ ''`gorm:"column:Language"`''],
              prev_line := ''Language = models.CharField(max_length=20, default="en")'',
              lines := 3\<rparr>)\<close>
proof -
  have h1: \<open>reaches_field_line item_open
              ''    Language = models.CharField(max_length=20, default="en")''\<close>
    by code_simp
  have h2: \<open>\<not> is_pk_line (strip ''    Language = models.CharField(max_length=20, default="en")'')\<close>
    by code_simp
  have h3: \<open>field_type_of (py_split (CHR ''='')
              (strip ''    Language = models.CharField(max_length=20, default="en")''))
            = Some ''CharField''\<close>
    by code_simp
  have h4: \<open>''CharField'' = ''CharField'' \<or> ''CharField'' = ''TextField''\<close> by simp
  have v: \<open>strip ''    Language = models.CharField(max_length=20, default="en")''
           = ''Language = models.CharField(max_length=20, default="en")''\<close>
    by code_simp
  have f: \<open>field_name_of ''Language = models.CharField(max_length=20, default="en")''
           = ''Language''\<close>
    by code_simp
  have c: \<open>capitalize ''Language'' = ''Language''\<close> by code_simp
  have m: \<open>current_model item_open = [''type Item struct {'']\<close> by code_simp
  have n: "lines item_open + 1 = 3" by code_simp
  from string_field_entry[OF h1 h2 h3 h4]
  have \<open>step item_open ''    Language = models.CharField(max_length=20, default="en")''
        = Inr (item_open\<lparr>current_model := current_model item_open
                 @ [[tab] @ capitalize (field_name_of
                      (strip ''    Language = models.CharField(max_length=20, default="en")''))
                    @ [tab, tab] @ ''string'' @ [tab] @ ''`gorm:"column:''
                    @ field_name_of
                        (strip ''    Language = models.CharField(max_length=20, default="en")'')
                    @ ''"`''],
               prev_line := strip ''    Language = models.CharField(max_length=20, default="en")'',
               lines := lines item_open + 1\<rparr>)\<close> .
  then have \<open>step item_open ''    Language = models.CharField(max_length=20, default="en")''
       = Inr (item_open\<lparr>current_model :=
                [''type Item struct {'',
                 [tab] @ ''Language'' @ [tab, tab] @ ''string'' @ [tab]
                   @ ''`gorm:"column:Language"`''],
              prev_line := ''Language = models.CharField(max_length=20, default="en")'',
              lines := 3\<rparr>)\<close>
    by (simp only: v f c m n append.simps)
  with h1 h2 h3 h4 show ?thesis by blast
qed

section \<open>Relationship fields\<close>

text \<open>
  What the relationship branch appends for \<open>ForeignKey\<close> and \<open>OneToOneField\<close>, in terms
  of the name \<open>m\<close> that line 268 extracts.
\<close>

lemma relationship_pair_extracted:
  assumes "reaches_field_line s raw" and "\<not> is_pk_line (strip raw)"
    and \<open>fkeymodel_of (py_split (CHR ''='') (strip raw)) = Some m\<close>
  shows \<open>(field_type_of (py_split (CHR ''='') (strip raw)) = Some ''ForeignKey'' \<longrightarrow>
      step s raw =
        Inr (s\<lparr>current_model := current_model s
               @ [[tab] @ capitalize (field_name_of (strip raw)) @ ''ID'' @ [tab, tab]
                  @ ''int64'' @ [tab] @ ''`gorm:"foreignKey:'' @ field_name_of (strip raw)
                  @ ''_id;association_foreignkey:id"`'',
                  [tab] @ capitalize (field_name_of (strip raw)) @ [tab, tab] @ m],
               prev_line := strip raw, lines := lines s + 1\<rparr>))
    \<and> (field_type_of (py_split (CHR ''='') (strip raw)) = Some ''OneToOneField'' \<longrightarrow>
      step s raw =
        Inr (s\<lparr>current_model := current_model s
               @ [[tab] @ capitalize (field_name_of (strip raw)) @ ''ID'' @ [tab, tab]
                  @ ''int64'' @ [tab] @ ''`gorm:"foreignKey:'' @ field_name_of (strip raw)
                  @ ''_id"`'',
                  [tab] @ capitalize (field_name_of (strip raw)) @ [tab, tab] @ m],
               prev_line := strip raw, lines := lines s + 1\<rparr>))\<close>
  using assms
  by (simp add: step_field_line field_line_typed TYPE_MAP_def relationship_def append_lines_def)

text \<open>
  Claim C7, counterexample. A \<open>ForeignKey\<close> line whose field is named \<open>id\<close> and that
  mentions \<open>primary_key\<close> is taken by the primary-key case of line 257: one \<open>primaryKey\<close>
  line and no pair. And for the argument \<open>settings.AUTH_USER_MODEL\<close> the type of the
  association field is the fragment \<open>settings\<close>, not the name of a declaration.
\<close>

theorem foreign_key_primary_key_alias:
  \<open>convert_lines [''class Item(models.Model):'',
                   ''    id = models.ForeignKey(District, primary_key=True)'']
      False False False
     = Inr [''type Item struct {'',
            [tab] @ ''ID'' @ [tab, tab] @ ''int64'' @ [tab, tab] @ ''`gorm:"primaryKey"`'',
            ''}'',
            []]
   \<and> convert_lines [''class Item(models.Model):'',
                     ''    owner = models.ForeignKey(settings.AUTH_USER_MODEL, null=True)'']
        False False False
     = Inr [''type Item struct {'',
            [tab] @ ''OwnerID'' @ [tab, tab] @ ''int64'' @ [tab]
              @ ''`gorm:"foreignKey:owner_id;association_foreignkey:id"`'',
            [tab] @ ''Owner'' @ [tab, tab] @ ''settings'',
            ''}'',
            []]\<close>
  by code_simp

text \<open>
  Claim C7, as amended: for every field line that reaches the relationship branch (a
  declaration is open, the line is no boundary, table-name or comment line, and it is not
  the primary-key case of line 257) and that reads \<open><lhs>= models.ForeignKey(<m>\<close>
  with a bare first argument \<open>m\<close> (no white space and none of \<open>= . ( , )\<close>) followed by a
  comma or by the parenthesis that ends the line, exactly two lines are appended, in this
  order: the identifier field \<open><Field>ID\<close> of type \<open>int64\<close> with the tag
  \<open>foreignKey:<field>_id;association_foreignkey:id\<close>, then the association field
  \<open><Field>\<close> of type \<open>m\<close>, where \<open><field>\<close> is the stripped left-hand side and
  \<open><Field>\<close> its capitalized form. A \<open>OneToOneField\<close> line of the same shape appends
  the same pair, its tag being \<open>foreignKey:<field>_id\<close> without the
  association-foreign-key component.
\<close>

theorem foreign_key_pair:
  assumes "reaches_field_line s raw" and "\<not> is_pk_line (strip raw)"
    and "names_related (strip raw) lhs ws ctor m tail"
  shows \<open>(ctor = ''ForeignKey'' \<longrightarrow>
      step s raw =
        Inr (s\<lparr>current_model := current_model s
               @ [[tab] @ capitalize (strip lhs) @ ''ID'' @ [tab, tab]
                  @ ''int64'' @ [tab] @ ''`gorm:"foreignKey:'' @ strip lhs
                  @ ''_id;association_foreignkey:id"`'',
                  [tab] @ capitalize (strip lhs) @ [tab, tab] @ m],
               prev_line := strip raw, lines := lines s + 1\<rparr>))
    \<and> (ctor = ''OneToOneField'' \<longrightarrow>
      step s raw =
        Inr (s\<lparr>current_model := current_model s
               @ [[tab] @ capitalize (strip lhs) @ ''ID'' @ [tab, tab]
                  @ ''int64'' @ [tab] @ ''`gorm:"foreignKey:'' @ strip lhs
                  @ ''_id"`'',
                  [tab] @ capitalize (strip lhs) @ [tab, tab] @ m],
               prev_line := strip raw, lines := lines s + 1\<rparr>))\<close>
proof -
  note ex = related_name_extracted[OF assms(3)]
  from relationship_pair_extracted[OF assms(1,2) ex(3)] show ?thesis
    unfolding ex(1) ex(2) by simp
qed

theorem foreign_key_pair_witness:
  \<open>(reaches_field_line item_open fk_line \<and> \<not> is_pk_line (strip fk_line)
     \<and> strip fk_line = ''district '' @ ''='' @ '' '' @ ''models.'' @ ''ForeignKey'' @ ''(''
                          @ ''District'' @ '', null=True)''
     \<and> step item_open fk_line
         = Inr (item_open\<lparr>current_model :=
                  [''type Item struct {'',
                   [tab] @ ''District'' @ ''ID'' @ [tab, tab] @ ''int64'' @ [tab]
                     @ ''`gorm:"foreignKey:'' @ ''district''
                     @ ''_id;association_foreignkey:id"`'',
                   [tab] @ ''District'' @ [tab, tab] @ ''District''],
                prev_line := ''district = models.ForeignKey(District, null=True)'',
                lines := 3\<rparr>))
   \<and> (reaches_field_line item_open o2o_line \<and> \<not> is_pk_line (strip o2o_line)
     \<and> strip o2o_line = ''user '' @ ''='' @ '' '' @ ''models.'' @ ''OneToOneField'' @ ''(''
                           @ ''User'' @ '', on_delete=models.CASCADE)''
     \<and> step item_open o2o_line
         = Inr (item_open\<lparr>current_model :=
                  [''type Item struct {'',
                   [tab] @ ''User'' @ ''ID'' @ [tab, tab] @ ''int64'' @ [tab]
                     @ ''`gorm:"foreignKey:'' @ ''user'' @ ''_id"`'',
                   [tab] @ ''User'' @ [tab, tab] @ ''User''],
                prev_line := ''user = models.OneToOneField(User, on_delete=models.CASCADE)'',
                lines := 3\<rparr>))\<close>
proof -
  have m: \<open>current_model item_open = [''type Item struct {'']\<close> by code_simp
  have n: "lines item_open + 1 = 3" by code_simp
  have a1: "reaches_field_line item_open fk_line" by code_simp
  have a2: "\<not> is_pk_line (strip fk_line)" by code_simp
  have a3: \<open>names_related (strip fk_line) ''district '' '' '' ''ForeignKey'' ''District''
              '', null=True)''\<close>
    by code_simp
  have a4: \<open>strip fk_line = ''district '' @ ''='' @ '' '' @ ''models.'' @ ''ForeignKey'' @ ''(''
                          @ ''District'' @ '', null=True)''\<close>
    by code_simp
  have av: \<open>strip fk_line = ''district = models.ForeignKey(District, null=True)''\<close>
    by code_simp
  have af: \<open>strip ''district '' = ''district''\<close> by code_simp
  have ac: \<open>capitalize ''district'' = ''District''\<close> by code_simp
  from foreign_key_pair[OF a1 a2 a3, THEN conjunct1, rule_format, OF refl]
  have a5: \<open>step item_open fk_line
         = Inr (item_open\<lparr>current_model :=
                  [''type Item struct {'',
                   [tab] @ ''District'' @ ''ID'' @ [tab, tab] @ ''int64'' @ [tab]
                     @ ''`gorm:"foreignKey:'' @ ''district''
                     @ ''_id;association_foreignkey:id"`'',
                   [tab] @ ''District'' @ [tab, tab] @ ''District''],
                prev_line := ''district = models.ForeignKey(District, null=True)'',
                lines := 3\<rparr>)\<close>
    by (simp only: av af ac m n append.simps)
  have b1: "reaches_field_line item_open o2o_line" by code_simp
  have b2: "\<not> is_pk_line (strip o2o_line)" by code_simp
  have b3: \<open>names_related (strip o2o_line) ''user '' '' '' ''OneToOneField'' ''User''
              '', on_delete=models.CASCADE)''\<close>
    by code_simp
  have b4: \<open>strip o2o_line = ''user '' @ ''='' @ '' '' @ ''models.'' @ ''OneToOneField'' @ ''(''
                           @ ''User'' @ '', on_delete=models.CASCADE)''\<close>
    by code_simp
  have bv: \<open>strip o2o_line = ''user = models.OneToOneField(User, on_delete=models.CASCADE)''\<close>
    by code_simp
  have bf: \<open>strip ''user '' = ''user''\<close> by code_simp
  have bc: \<open>capitalize ''user'' = ''User''\<close> by code_simp
  from foreign_key_pair[OF b1 b2 b3, THEN conjunct2, rule_format, OF refl]
  have b5: \<open>step item_open o2o_line
         = Inr (item_open\<lparr>current_model :=
                  [''type Item struct {'',
                   [tab] @ ''User'' @ ''ID'' @ [tab, tab] @ ''int64'' @ [tab]
                     @ ''`gorm:"foreignKey:'' @ ''user'' @ ''_id"`'',
                   [tab] @ ''User'' @ [tab, tab] @ ''User''],
                prev_line := ''user = models.OneToOneField(User, on_delete=models.CASCADE)'',
                lines := 3\<rparr>)\<close>
    by (simp only: bv bf bc m n append.simps)
  from a1 a2 a4 a5 b1 b2 b4 b5 show ?thesis by blast
qed

text \<open>
  Claim C4, counterexample. \<open>owner = models.ForeignKey\<close> has no argument list, so the
  related name cannot be extracted: the sentinel \<open>########\<close> is the type of the
  association field, but no diagnostic is recorded (there is no \<open>.errors\<close> text).
\<close>

theorem malformed_relationship_no_diagnostic:
  \<open>convert [''class Item(models.Model):'', ''    owner = models.ForeignKey''] False False False
   = Inr \<lparr>out_text = join [nl]
             [''type Item struct {'',
              [tab] @ ''OwnerID'' @ [tab, tab] @ ''int64'' @ [tab]
                @ ''`gorm:"foreignKey:owner_id;association_foreignkey:id"`'',
              [tab] @ ''Owner'' @ [tab, tab] @ ''########'',
              ''}'',
              []],
           errors_text = None\<rparr>\<close>
  by code_simp

text \<open>
  Claim C4, as amended: when the related-declaration name cannot be extracted from a
  \<open>ForeignKey\<close>, \<open>OneToOneField\<close> or \<open>ManyToManyField\<close> call, the sentinel \<open>########\<close>
  takes the place of the related type in the emitted lines and the scan continues; the
  list of diagnostics is left as it was.
\<close>

theorem malformed_relationship_sentinel:
  assumes "reaches_field_line s raw" and "\<not> is_pk_line (strip raw)"
    and \<open>fkeymodel_of (py_split (CHR ''='') (strip raw)) = None\<close>
  shows \<open>(field_type_of (py_split (CHR ''='') (strip raw)) = Some ''ForeignKey'' \<longrightarrow>
      step s raw =
        Inr (s\<lparr>current_model := current_model s
               @ [[tab] @ capitalize (field_name_of (strip raw)) @ ''ID'' @ [tab, tab]
                  @ ''int64'' @ [tab] @ ''`gorm:"foreignKey:'' @ field_name_of (strip raw)
                  @ ''_id;association_foreignkey:id"`'',
                  [tab] @ capitalize (field_name_of (strip raw)) @ [tab, tab] @ ''########''],
               prev_line := strip raw, lines := lines s + 1\<rparr>))
    \<and> (field_type_of (py_split (CHR ''='') (strip raw)) = Some ''OneToOneField'' \<longrightarrow>
      step s raw =
        Inr (s\<lparr>current_model := current_model s
               @ [[tab] @ capitalize (field_name_of (strip raw)) @ ''ID'' @ [tab, tab]
                  @ ''int64'' @ [tab] @ ''`gorm:"foreignKey:'' @ field_name_of (strip raw)
                  @ ''_id"`'',
                  [tab] @ capitalize (field_name_of (strip raw)) @ [tab, tab] @ ''########''],
               prev_line := strip raw, lines := lines s + 1\<rparr>))
    \<and> (field_type_of (py_split (CHR ''='') (strip raw)) = Some ''ManyToManyField'' \<longrightarrow>
      step s raw =
        Inr (s\<lparr>current_model := current_model s
               @ [[tab, bsl] @ '' !! NOTE: m2m key relationship/name may not work'',
                  [tab] @ capitalize (field_name_of (strip raw)) @ [tab, tab] @ ''[]''
                  @ ''########'' @ [tab] @ ''`gorm:"many2many:'' @ table_name s @ ''_''
                  @ field_name_of (strip raw) @ '';joinForeignKey:'' @ table_name s @ ''_id"`''],
               prev_line := strip raw, lines := lines s + 1\<rparr>))\<close>
  using assms
  by (simp add: step_field_line field_line_typed TYPE_MAP_def relationship_def append_lines_def)

theorem malformed_relationship_sentinel_witness:
  \<open>(reaches_field_line item_open bad_fk_line \<and> \<not> is_pk_line (strip bad_fk_line)
     \<and> fkeymodel_of (py_split (CHR ''='') (strip bad_fk_line)) = None
     \<and> field_type_of (py_split (CHR ''='') (strip bad_fk_line)) = Some ''ForeignKey''
     \<and> step item_open bad_fk_line
         = Inr (item_open\<lparr>current_model :=
                  [''type Item struct {'',
                   [tab] @ ''Owner'' @ ''ID'' @ [tab, tab] @ ''int64'' @ [tab]
                     @ ''`gorm:"foreignKey:'' @ ''owner''
                     @ ''_id;association_foreignkey:id"`'',
                   [tab] @ ''Owner'' @ [tab, tab] @ ''########''],
                prev_line := ''owner = models.ForeignKey'', lines := 3\<rparr>))
   \<and> (reaches_field_line item_open bad_o2o_line \<and> \<not> is_pk_line (strip bad_o2o_line)
     \<and> fkeymodel_of (py_split (CHR ''='') (strip bad_o2o_line)) = None
     \<and> field_type_of (py_split (CHR ''='') (strip bad_o2o_line)) = Some ''OneToOneField''
     \<and> step item_open bad_o2o_line
         = Inr (item_open\<lparr>current_model :=
                  [''type Item struct {'',
                   [tab] @ ''Profile'' @ ''ID'' @ [tab, tab] @ ''int64'' @ [tab]
                     @ ''`gorm:"foreignKey:'' @ ''profile'' @ ''_id"`'',
                   [tab] @ ''Profile'' @ [tab, tab] @ ''########''],
                prev_line := ''profile = models.OneToOneField'', lines := 3\<rparr>))
   \<and> (reaches_field_line item_open bad_m2m_line \<and> \<not> is_pk_line (strip bad_m2m_line)
     \<and> fkeymodel_of (py_split (CHR ''='') (strip bad_m2m_line)) = None
     \<and> field_type_of (py_split (CHR ''='') (strip bad_m2m_line)) = Some ''ManyToManyField''
     \<and> step item_open bad_m2m_line
         = Inr (item_open\<lparr>current_model :=
                  [''type Item struct {'',
                   [tab, bsl] @ '' !! NOTE: m2m key relationship/name may not work'',
                   [tab] @ ''Tags'' @ [tab, tab] @ ''[]'' @ ''########'' @ [tab]
                     @ ''`gorm:"many2many:'' @ ''app_items'' @ ''_'' @ ''tags''
                     @ '';joinForeignKey:'' @ ''app_items'' @ ''_id"`''],
                prev_line := ''tags = models.ManyToManyField'', lines := 3\<rparr>))\<close>
proof -
  have m: \<open>current_model item_open = [''type Item struct {'']\<close> by code_simp
  have n: "lines item_open + 1 = 3" by code_simp
  have t: \<open>table_name item_open = ''app_items''\<close> by code_simp
  have a1: "reaches_field_line item_open bad_fk_line" by code_simp
  have a2: "\<not> is_pk_line (strip bad_fk_line)" by code_simp
  have a3: \<open>fkeymodel_of (py_split (CHR ''='') (strip bad_fk_line)) = None\<close> by code_simp
  have a4: \<open>field_type_of (py_split (CHR ''='') (strip bad_fk_line)) = Some ''ForeignKey''\<close>
    by code_simp
  have av: \<open>strip bad_fk_line = ''owner = models.ForeignKey''\<close> by code_simp
  have af: \<open>field_name_of ''owner = models.ForeignKey'' = ''owner''\<close> by code_simp
  have ac: \<open>capitalize ''owner'' = ''Owner''\<close> by code_simp
  from malformed_relationship_sentinel[OF a1 a2 a3, THEN conjunct1, rule_format, OF a4]
  have a5: \<open>step item_open bad_fk_line
         = Inr (item_open\<lparr>current_model :=
                  [''type Item struct {'',
                   [tab] @ ''Owner'' @ ''ID'' @ [tab, tab] @ ''int64'' @ [tab]
                     @ ''`gorm:"foreignKey:'' @ ''owner''
                     @ ''_id;association_foreignkey:id"`'',
                   [tab] @ ''Owner'' @ [tab, tab] @ ''########''],
                prev_line := ''owner = models.ForeignKey'', lines := 3\<rparr>)\<close>
    by (simp only: av af ac m n append.simps)
  have b1: "reaches_field_line item_open bad_o2o_line" by code_simp
  have b2: "\<not> is_pk_line (strip bad_o2o_line)" by code_simp
  have b3: \<open>fkeymodel_of (py_split (CHR ''='') (strip bad_o2o_line)) = None\<close> by code_simp
  have b4: \<open>field_type_of (py_split (CHR ''='') (strip bad_o2o_line)) = Some ''OneToOneField''\<close>
    by code_simp
  have bv: \<open>strip bad_o2o_line = ''profile = models.OneToOneField''\<close> by code_simp
  have bf: \<open>field_name_of ''profile = models.OneToOneField'' = ''profile''\<close> by code_simp
  have bc: \<open>capitalize ''profile'' = ''Profile''\<close> by code_simp
  from malformed_relationship_sentinel[OF b1 b2 b3, THEN conjunct2, THEN conjunct1,
      rule_format, OF b4]
  have b5: \<open>step item_open bad_o2o_line
         = Inr (item_open\<lparr>current_model :=
                  [''type Item struct {'',
                   [tab] @ ''Profile'' @ ''ID'' @ [tab, tab] @ ''int64'' @ [tab]
                     @ ''`gorm:"foreignKey:'' @ ''profile'' @ ''_id"`'',
                   [tab] @ ''Profile'' @ [tab, tab] @ ''########''],
                prev_line := ''profile = models.OneToOneField'', lines := 3\<rparr>)\<close>
    by (simp only: bv bf bc m n append.simps)
  have c1: "reaches_field_line item_open bad_m2m_line" by code_simp
  have c2: "\<not> is_pk_line (strip bad_m2m_line)" by code_simp
  have c3: \<open>fkeymodel_of (py_split (CHR ''='') (strip bad_m2m_line)) = None\<close> by code_simp
  have c4: \<open>field_type_of (py_split (CHR ''='') (strip bad_m2m_line))
            = Some ''ManyToManyField''\<close>
    by code_simp
  have cv: \<open>strip bad_m2m_line = ''tags = models.ManyToManyField''\<close> by code_simp
  have cf: \<open>field_name_of ''tags = models.ManyToManyField'' = ''tags''\<close> by code_simp
  have cc: \<open>capitalize ''tags'' = ''Tags''\<close> by code_simp
  from malformed_relationship_sentinel[OF c1 c2 c3, THEN conjunct2, THEN conjunct2,
      rule_format, OF c4]
  have c5: \<open>step item_open bad_m2m_line
         = Inr (item_open\<lparr>current_model :=
                  [''type Item struct {'',
                   [tab, bsl] @ '' !! NOTE: m2m key relationship/name may not work'',
                   [tab] @ ''Tags'' @ [tab, tab] @ ''[]'' @ ''########'' @ [tab]
                     @ ''`gorm:"many2many:'' @ ''app_items'' @ ''_'' @ ''tags''
                     @ '';joinForeignKey:'' @ ''app_items'' @ ''_id"`''],
                prev_line := ''tags = models.ManyToManyField'', lines := 3\<rparr>)\<close>
    by (simp only: cv cf cc m n t append.simps)
  from a1 a2 a3 a4 a5 b1 b2 b3 b4 b5 c1 c2 c3 c4 c5 show ?thesis by blast
qed

section \<open>Routing of the table-name assignment\<close>

text \<open>
  Claim C6, counterexample. In the first input the nearest non-empty line before the
  assignment is exactly \<open>class Meta:\<close>, but a blank line lies between them: the
  assignment is not treated as a table name (no helper interface, no accessor). In the
  second input the line before the assignment is a comment that merely mentions
  \<open>class Meta:\<close>: the assignment is treated as the table name.
\<close>

theorem table_name_routing_blank_line:
  \<open>convert_lines [''class Item(models.Model):'', ''    class Meta:'', [],
                   ''        db_table = "stock"''] False False False
     = Inr [''type Item struct {'', ''}'', []]
   \<and> convert_lines [''class Item(models.Model):'', ''    # no class Meta: here'',
                     ''    db_table = "stock"''] False False False
     = Inr (py_split nl TABLE_HELPER
            @ [''type Item struct {'',
               [tab] @ ''//  no class Meta: here'',
               ''}'',
               [],
               ''func (Item) TableName() string {'',
               [tab] @ ''return "stock"'',
               ''}'',
               []])\<close>
  by code_simp

text \<open>
  Claim C6, as amended: while a declaration is open, a non-boundary line that contains
  \<open>db_table\<close> and \<open>=\<close> and does not start with \<open>#\<close> is routed to the table-name
  resolver (it records the unquoted right-hand side as explicit table identifier and
  appends nothing) if and only if the immediately preceding line, blank lines included,
  contains \<open>class Meta:\<close> after trimming; otherwise it is handled like any other body
  line and the table-name fields stay as they were.
\<close>

theorem table_name_routing:
  assumes "in_model_def s" and \<open>\<not> startswith raw ''def ''\<close> and "\<not> is_class_start (strip raw)"
    and \<open>py_in ''db_table'' (strip raw)\<close> and \<open>py_in ''='' (strip raw)\<close>
    and \<open>\<not> startswith (strip raw) ''#''\<close>
  shows \<open>(py_in ''class Meta:'' (prev_line s) \<longrightarrow>
           (\<exists>v. nth_opt (py_split (CHR ''='') (strip raw)) 1 = Some v
                \<and> step s raw = Inr (s\<lparr>custom_table_name := True, got_custom_tables := True,
                                       table_name := unquote v,
                                       prev_line := strip raw, lines := lines s + 1\<rparr>)))
       \<and> (\<not> py_in ''class Meta:'' (prev_line s) \<longrightarrow>
           (\<forall>s'. step s raw = Inr s' \<longrightarrow>
              custom_table_name s' = custom_table_name s \<and> table_name s' = table_name s
              \<and> got_custom_tables s' = got_custom_tables s \<and> prev_line s' = strip raw))\<close>
proof -
  have routed: \<open>\<exists>v. nth_opt (py_split (CHR ''='') (strip raw)) 1 = Some v
                \<and> step s raw = Inr (s\<lparr>custom_table_name := True, got_custom_tables := True,
                                       table_name := unquote v,
                                       prev_line := strip raw, lines := lines s + 1\<rparr>)\<close>
    if meta: \<open>py_in ''class Meta:'' (prev_line s)\<close>
  proof -
    from assms(5) obtain v where v: \<open>nth_opt (py_split (CHR ''='') (strip raw)) 1 = Some v\<close>
      using py_split_second[of \<open>CHR ''=''\<close> "strip raw"] by (auto simp: py_in_char)
    from assms meta have "is_db_table s (strip raw)"
      by (simp add: is_db_table_def)
    with assms(1-3) v
    have \<open>step s raw = Inr (s\<lparr>custom_table_name := True, got_custom_tables := True,
                              table_name := unquote v,
                              prev_line := strip raw, lines := lines s + 1\<rparr>)\<close>
      by (simp add: step_def body_line_def Let_def)
    with v show ?thesis by blast
  qed
  have not_routed: "custom_table_name s' = custom_table_name s \<and> table_name s' = table_name s
        \<and> got_custom_tables s' = got_custom_tables s \<and> prev_line s' = strip raw"
    if nometa: \<open>\<not> py_in ''class Meta:'' (prev_line s)\<close> and st: "step s raw = Inr s'" for s'
  proof -
    from nometa have ndb: "\<not> is_db_table s (strip raw)"
      by (simp add: is_db_table_def)
    from assms(1-3) have "step s raw = (case body_line s (strip raw) of Inl e \<Rightarrow> Inl e
        | Inr s2 \<Rightarrow> Inr (s2\<lparr>prev_line := strip raw, lines := lines s2 + 1\<rparr>))"
      by (simp add: step_def Let_def)
    with st obtain s2 where s2: "body_line s (strip raw) = Inr s2"
      and s': "s' = s2\<lparr>prev_line := strip raw, lines := lines s2 + 1\<rparr>"
      by (cases "body_line s (strip raw)") auto
    from body_line_table_fields[OF s2 ndb] s' show ?thesis
      by simp
  qed
  from routed not_routed show ?thesis by blast
qed

lemma meta_seen_reached:
  \<open>scan init [''class Item(models.Model):'', ''    class Meta:''] = Inr meta_seen\<close>
  by code_simp

lemma blank_seen_reached:
  \<open>scan init [''class Item(models.Model):'', ''    class Meta:'', []] = Inr blank_seen\<close>
  by code_simp

theorem table_name_routing_witness:
  \<open>(in_model_def meta_seen \<and> \<not> startswith db_table_line ''def ''
     \<and> \<not> is_class_start (strip db_table_line)
     \<and> py_in ''db_table'' (strip db_table_line) \<and> py_in ''='' (strip db_table_line)
     \<and> \<not> startswith (strip db_table_line) ''#''
     \<and> py_in ''class Meta:'' (prev_line meta_seen)
     \<and> step meta_seen db_table_line
         = Inr (meta_seen\<lparr>custom_table_name := True, got_custom_tables := True,
                          table_name := ''stock'', prev_line := ''db_table = "stock"'',
                          lines := 4\<rparr>))
   \<and> (in_model_def blank_seen \<and> \<not> py_in ''class Meta:'' (prev_line blank_seen)
     \<and> step blank_seen db_table_line
         = Inr (blank_seen\<lparr>prev_line := ''db_table = "stock"'', lines := 5\<rparr>)
     \<and> \<not> custom_table_name (blank_seen\<lparr>prev_line := ''db_table = "stock"'', lines := 5\<rparr>)
     \<and> table_name (blank_seen\<lparr>prev_line := ''db_table = "stock"'', lines := 5\<rparr>)
         = ''app_items'')\<close>
proof -
  have h2: \<open>\<not> startswith db_table_line ''def ''\<close> by code_simp
  have h3: "\<not> is_class_start (strip db_table_line)" by code_simp
  have h4: \<open>py_in ''db_table'' (strip db_table_line)\<close> by code_simp
  have h5: \<open>py_in ''='' (strip db_table_line)\<close> by code_simp
  have h6: \<open>\<not> startswith (strip db_table_line) ''#''\<close> by code_simp
  have a1: "in_model_def meta_seen" by code_simp
  have a7: \<open>py_in ''class Meta:'' (prev_line meta_seen)\<close> by code_simp
  have sv: \<open>strip db_table_line = ''db_table = "stock"''\<close> by code_simp
  have an: "lines meta_seen + 1 = 4" by code_simp
  from table_name_routing[OF a1 h2 h3 h4 h5 h6, THEN conjunct1, rule_format, OF a7]
  obtain v where v: \<open>nth_opt (py_split (CHR ''='') (strip db_table_line)) 1 = Some v\<close>
    and st: \<open>step meta_seen db_table_line
              = Inr (meta_seen\<lparr>custom_table_name := True, got_custom_tables := True,
                               table_name := unquote v, prev_line := strip db_table_line,
                               lines := lines meta_seen + 1\<rparr>)\<close>
    by blast
  have \<open>nth_opt (py_split (CHR ''='') (strip db_table_line)) 1 = Some ([CHR '' '', dq] @ ''stock'' @ [dq])\<close>
    by code_simp
  with v have vv: \<open>v = [CHR '' '', dq] @ ''stock'' @ [dq]\<close> by simp
  have uq: \<open>unquote ([CHR '' '', dq] @ ''stock'' @ [dq]) = ''stock''\<close> by code_simp
  from st have a8: \<open>step meta_seen db_table_line
         = Inr (meta_seen\<lparr>custom_table_name := True, got_custom_tables := True,
                          table_name := ''stock'', prev_line := ''db_table = "stock"'',
                          lines := 4\<rparr>)\<close>
    by (simp only: vv uq sv an)
  have b1: "in_model_def blank_seen" by code_simp
  have b7: \<open>\<not> py_in ''class Meta:'' (prev_line blank_seen)\<close> by code_simp
  have b8: \<open>step blank_seen db_table_line
         = Inr (blank_seen\<lparr>prev_line := ''db_table = "stock"'', lines := 5\<rparr>)\<close>
    by code_simp
  have bc: "\<not> custom_table_name blank_seen" by code_simp
  have bt: \<open>table_name blank_seen = ''app_items''\<close> by code_simp
  from table_name_routing[OF b1 h2 h3 h4 h5 h6, THEN conjunct2, rule_format, OF b7 b8]
  have \<open>custom_table_name (blank_seen\<lparr>prev_line := ''db_table = "stock"'', lines := 5\<rparr>)
          = custom_table_name blank_seen
        \<and> table_name (blank_seen\<lparr>prev_line := ''db_table = "stock"'', lines := 5\<rparr>)
          = table_name blank_seen\<close>
    by blast
  with bc bt have b9: \<open>\<not> custom_table_name (blank_seen\<lparr>prev_line := ''db_table = "stock"'', lines := 5\<rparr>)
     \<and> table_name (blank_seen\<lparr>prev_line := ''db_table = "stock"'', lines := 5\<rparr>)
         = ''app_items''\<close>
    by (simp only: simp_thms)
  from a1 h2 h3 h4 h5 h6 a7 a8 b1 b7 b8 b9 show ?thesis by blast
qed

section \<open>Facts about splitting, case conversion and replacement\<close>

lemma nth_opt_mem: "nth_opt xs n = Some x \<Longrightarrow> x \<in> set xs"
  by (induction xs n rule: nth_opt.induct) auto

lemma py_split_no_sep: "w \<in> set (py_split c s) \<Longrightarrow> c \<notin> set w"
proof (induction s arbitrary: w)
  case Nil
  then show ?case by simp
next
  case (Cons x xs)
  obtain v vs where vs: "py_split c xs = v # vs"
    using py_split_not_Nil by (cases "py_split c xs") auto
  show ?case
  proof (cases "x = c")
    case True
    with Cons show ?thesis by auto
  next
    case False
    with Cons.prems vs have "w = x # v \<or> w \<in> set vs" by simp
    then show ?thesis
    proof
      assume "w = x # v"
      moreover have "c \<notin> set v" using Cons.IH[of v] vs by simp
      ultimately show ?thesis using False by simp
    next
      assume "w \<in> set vs"
      then show ?thesis using Cons.IH[of w] vs by simp
    qed
  qed
qed

lemma model_name_no_blank:
  assumes "model_name_of l = Some name"
  shows "CHR '' '' \<notin> set name"
proof -
  from assms obtain w where w: "nth_opt (py_split (CHR '' '') l) 1 = Some w"
    and n: "nth_opt (py_split (CHR ''('') w) 0 = Some name"
    by (auto simp: model_name_of_def split: Option.bind_splits)
  from w have "CHR '' '' \<notin> set w"
    by (auto dest!: nth_opt_mem py_split_no_sep)
  moreover from n have "name = takeWhile (\<lambda>x. x \<noteq> CHR ''('') w"
    by (simp add: py_split_first)
  ultimately show ?thesis
    by (auto dest: set_takeWhileD)
qed

lemma lower_chr_blank: "lower_chr c = CHR '' '' \<Longrightarrow> c = CHR '' ''"
proof -
  have "d \<noteq> CHR '' ''"
    if "map_of (zip ''ABCDEFGHIJKLMNOPQRSTUVWXYZ'' ''abcdefghijklmnopqrstuvwxyz'') c = Some d" for d
  proof -
    from that have "d \<in> set ''abcdefghijklmnopqrstuvwxyz''"
      by (meson map_of_SomeD set_zip_rightD)
    then show ?thesis by auto
  qed
  then show "lower_chr c = CHR '' '' \<Longrightarrow> c = CHR '' ''"
    by (auto simp: lower_chr_def split: option.splits)
qed

lemma lower_no_blank:
  assumes "CHR '' '' \<notin> set s"
  shows "CHR '' '' \<notin> set (lower s)"
proof
  assume "CHR '' '' \<in> set (lower s)"
  then obtain x where "x \<in> set s" and "lower_chr x = CHR '' ''"
    by (auto simp: lower_def)
  with assms show False
    by (auto dest: lower_chr_blank)
qed

lemma repl_skip:
  "old \<noteq> [] \<Longrightarrow> c \<noteq> hd old \<Longrightarrow> repl old new (c # cs) = c # repl old new cs"
  by (cases old) auto

lemma repl_skip_prefix:
  "old \<noteq> [] \<Longrightarrow> hd old \<notin> set u \<Longrightarrow> repl old new (u @ v) = u @ repl old new v"
  by (induction u) (auto simp: repl_skip simp del: repl.simps)

lemma relationship_frame:
  "relationship s l fn ft fp
   = s\<lparr>current_model := current_model (relationship s l fn ft fp),
       errors := errors (relationship s l fn ft fp)\<rparr>"
  by (simp add: relationship_def append_lines_def Let_def)

section \<open>What a body line can change\<close>

lemma relationship_buffer:
  "\<exists>xs. current_model (relationship s l fn ft fp) = current_model s @ xs
        \<and> (\<forall>x \<in> set xs. startswith x [tab])"
  by (simp add: relationship_def append_lines_def Let_def)

lemma relationship_keeps:
  "out_lines (relationship s l fn ft fp) = out_lines s
   \<and> in_model_def (relationship s l fn ft fp) = in_model_def s
   \<and> last_model_closed (relationship s l fn ft fp) = last_model_closed s
   \<and> model_name (relationship s l fn ft fp) = model_name s
   \<and> default_table_name (relationship s l fn ft fp) = default_table_name s
   \<and> found_user_table (relationship s l fn ft fp) = found_user_table s
   \<and> found_group_table (relationship s l fn ft fp) = found_group_table s"
  by (simp add: relationship_def append_lines_def Let_def)

lemma field_line_cases:
  assumes "field_line s l = Inr s'"
  obtains x e where "s' = append_lines [x] (s\<lparr>errors := errors s @ [e]\<rparr>)" "startswith x [tab]"
  | x where "s' = append_lines [x] s" "startswith x [tab]"
  | fn ft fp where "s' = relationship s l fn ft fp"
proof (cases \<open>field_type_of (py_split (CHR ''='') l)\<close>)
  case None
  with assms that(1) show ?thesis
    unfolding field_line_untyped[OF None]
    by (cases \<open>py_in ''TreeForeignKey'' l\<close>) auto
next
  case (Some ft)
  show ?thesis
  proof (cases "is_pk_line l")
    case True
    with assms that(2) show ?thesis
      unfolding field_line_pk[OF Some True] by auto
  next
    case False
    show ?thesis
    proof (cases "map_of TYPE_MAP ft")
      case None
      with assms that(3) show ?thesis
        unfolding field_line_typed[OF Some False] by auto
    next
      case gt: (Some gotype)
      with assms that(2) show ?thesis
        unfolding field_line_typed[OF Some False] by auto
    qed
  qed
qed

lemma field_line_buffer:
  assumes "field_line s l = Inr s'"
  shows "\<exists>xs. current_model s' = current_model s @ xs \<and> (\<forall>x \<in> set xs. startswith x [tab])"
  using assms
proof (cases rule: field_line_cases)
  case (1 x e)
  then show ?thesis by (simp add: append_lines_def)
next
  case (2 x)
  then show ?thesis by (simp add: append_lines_def)
next
  case (3 fn ft fp)
  then show ?thesis using relationship_buffer by simp
qed

lemma field_line_keeps:
  assumes "field_line s l = Inr s'"
  shows "out_lines s' = out_lines s \<and> in_model_def s' = in_model_def s
   \<and> last_model_closed s' = last_model_closed s \<and> model_name s' = model_name s
   \<and> default_table_name s' = default_table_name s
   \<and> found_user_table s' = found_user_table s \<and> found_group_table s' = found_group_table s"
  using assms
proof (cases rule: field_line_cases)
  case (1 x e)
  then show ?thesis by (simp add: append_lines_def)
next
  case (2 x)
  then show ?thesis by (simp add: append_lines_def)
next
  case (3 fn ft fp)
  then show ?thesis using relationship_keeps by simp
qed

lemma body_line_buffer:
  assumes "body_line s l = Inr s'"
  shows "\<exists>xs. current_model s' = current_model s @ xs \<and> (\<forall>x \<in> set xs. startswith x [tab])"
proof (cases \<open>\<not> is_db_table s l \<and> \<not> startswith l [dq, dq, dq] \<and> \<not> startswith l ''#''
              \<and> py_in ''='' l \<and> py_in ''models.'' l\<close>)
  case True
  with assms have "field_line s l = Inr s'"
    by (simp add: body_line_def)
  then show ?thesis by (rule field_line_buffer)
next
  case False
  with assms show ?thesis
    by (auto simp: body_line_def append_lines_def split: if_splits option.splits)
qed

lemma body_line_keeps:
  assumes "body_line s l = Inr s'"
  shows "out_lines s' = out_lines s \<and> in_model_def s' = in_model_def s
   \<and> last_model_closed s' = last_model_closed s \<and> model_name s' = model_name s
   \<and> default_table_name s' = default_table_name s
   \<and> found_user_table s' = found_user_table s \<and> found_group_table s' = found_group_table s"
proof (cases \<open>\<not> is_db_table s l \<and> \<not> startswith l [dq, dq, dq] \<and> \<not> startswith l ''#''
              \<and> py_in ''='' l \<and> py_in ''models.'' l\<close>)
  case True
  with assms have "field_line s l = Inr s'"
    by (simp add: body_line_def)
  then show ?thesis by (rule field_line_keeps)
next
  case False
  with assms show ?thesis
    by (auto simp: body_line_def append_lines_def split: if_splits option.splits)
qed

lemma close_model_def_keeps:
  "in_model_def (close_model_def s) = in_model_def s
   \<and> last_model_closed (close_model_def s) = last_model_closed s
   \<and> model_name (close_model_def s) = model_name s
   \<and> default_table_name (close_model_def s) = default_table_name s
   \<and> table_name (close_model_def s) = table_name s
   \<and> custom_table_name (close_model_def s) = custom_table_name s
   \<and> got_custom_tables (close_model_def s) = got_custom_tables s
   \<and> found_user_table (close_model_def s) = found_user_table s
   \<and> found_group_table (close_model_def s) = found_group_table s
   \<and> errors (close_model_def s) = errors s"
  by (simp add: close_model_def_def Let_def)

lemma close_model_def_out:
  \<open>out_lines (close_model_def s) =
     out_lines s @
     (if custom_table_name s then
        map (py_replace (default_table_name s) (table_name s))
          (current_model s
           @ [''}'', [], ''func ('' @ model_name s @ '') TableName() string {'',
              [tab] @ ''return "'' @ table_name s @ ''"'', ''}'', []])
      else current_model s @ [''}'', []])\<close>
  by (simp add: close_model_def_def Let_def)

lemma close_and_reset_keeps:
  "in_model_def (close_and_reset s) = in_model_def s
   \<and> last_model_closed (close_and_reset s)
   \<and> current_model (close_and_reset s) = []
   \<and> out_lines (close_and_reset s) = out_lines (close_model_def s)
   \<and> model_name (close_and_reset s) = model_name s
   \<and> default_table_name (close_and_reset s) = default_table_name s
   \<and> table_name (close_and_reset s) = table_name s
   \<and> custom_table_name (close_and_reset s) = custom_table_name s
   \<and> got_custom_tables (close_and_reset s) = got_custom_tables s
   \<and> found_user_table (close_and_reset s) = found_user_table s
   \<and> found_group_table (close_and_reset s) = found_group_table s
   \<and> errors (close_and_reset s) = errors s"
  by (simp add: close_and_reset_def close_model_def_keeps)

text \<open>The found flags along one step and along the scan.\<close>

lemma open_model_found:
  assumes "open_model s l = Inr s'"
  shows \<open>(found_user_table s' \<longleftrightarrow> found_user_table s \<or> model_name_of l = Some ''User'')
       \<and> (found_group_table s' \<longleftrightarrow> found_group_table s \<or> model_name_of l = Some ''Group'')\<close>
proof -
  define s1 where "s1 = (if in_model_def s then close_and_reset s else s)"
  have s1: "found_user_table s1 = found_user_table s" "found_group_table s1 = found_group_table s"
    by (simp_all add: s1_def close_and_reset_keeps)
  from assms obtain name where name: "model_name_of l = Some name"
    by (cases "model_name_of l") (auto simp: open_model_def Let_def)
  with assms have \<open>found_user_table s' = (found_user_table s1 \<or> name = ''User'')\<close>
    \<open>found_group_table s' = (found_group_table s1 \<or> name = ''Group'')\<close>
    by (auto simp: open_model_def Let_def s1_def[symmetric])
  with s1 name show ?thesis by simp
qed

lemma step_found:
  assumes "step s raw = Inr s'"
  shows \<open>(found_user_table s' \<longleftrightarrow> found_user_table s \<or> declares ''User'' raw)
       \<and> (found_group_table s' \<longleftrightarrow> found_group_table s \<or> declares ''Group'' raw)\<close>
proof -
  define s1 where \<open>s1 = (if startswith raw ''def '' \<and> in_model_def s
                         then close_and_reset (s\<lparr>in_model_def := False\<rparr>) else s)\<close>
  have s1: "found_user_table s1 = found_user_table s" "found_group_table s1 = found_group_table s"
    by (simp_all add: s1_def close_and_reset_keeps)
  show ?thesis
  proof (cases "is_class_start (strip raw)")
    case True
    with assms obtain s2 where "open_model s1 (strip raw) = Inr s2"
      and "s' = s2\<lparr>prev_line := strip raw, lines := lines s2 + 1\<rparr>"
      by (auto simp: step_def Let_def s1_def split: sum.splits)
    with open_model_found[of s1 "strip raw" s2] s1 True show ?thesis
      by (simp add: declares_def)
  next
    case False
    show ?thesis
    proof (cases "in_model_def s1")
      case True
      with assms False obtain s2 where "body_line s1 (strip raw) = Inr s2"
        and "s' = s2\<lparr>prev_line := strip raw, lines := lines s2 + 1\<rparr>"
        by (auto simp: step_def Let_def s1_def split: sum.splits)
      with body_line_keeps[of s1 "strip raw" s2] s1 False show ?thesis
        by (simp add: declares_def)
    next
      case nin: False
      with assms False have "s' = s1\<lparr>prev_line := strip raw, lines := lines s1 + 1\<rparr>"
        by (auto simp: step_def Let_def s1_def split: sum.splits)
      with s1 False show ?thesis
        by (simp add: declares_def)
    qed
  qed
qed

lemma scan_found:
  assumes "scan s in_lines = Inr s'"
  shows \<open>(found_user_table s' \<longleftrightarrow> found_user_table s \<or> (\<exists>raw \<in> set in_lines. declares ''User'' raw))
       \<and> (found_group_table s' \<longleftrightarrow>
            found_group_table s \<or> (\<exists>raw \<in> set in_lines. declares ''Group'' raw))\<close>
  using assms
proof (induction in_lines arbitrary: s)
  case Nil
  then show ?case by simp
next
  case (Cons raw in_lines)
  from Cons.prems obtain s1 where st: "step s raw = Inr s1" and sc: "scan s1 in_lines = Inr s'"
    by (auto split: sum.splits)
  from Cons.IH[OF sc] step_found[OF st] show ?case
    by auto
qed

section \<open>Lines that the rewriting at close time leaves recognisable\<close>

lemma default_name_facts:
  assumes \<open>d = ''app_'' @ lower N @ ''s''\<close> and "CHR '' '' \<notin> set N"
  shows "d \<noteq> []" and "hd d = CHR ''a''" and "CHR '' '' \<notin> set d"
    and "length d = length N + 5"
  using assms lower_no_blank[of N] by (auto simp: lower_def)

lemma repl_header_tail:
  assumes "old \<noteq> []" and "hd old = CHR ''a''" and "CHR '' '' \<notin> set old"
    and "length M < length old"
  shows \<open>repl old new (M @ '' struct {'') = M @ '' struct {''\<close>
  using assms(4)
proof (induction M)
  case Nil
  have \<open>repl old new ('' struct {'' @ []) = '' struct {'' @ repl old new []\<close>
    by (rule repl_skip_prefix) (use assms(1,2) in auto)
  then show ?case by simp
next
  case (Cons c M)
  have "\<not> startswith ((c # M) @ '' struct {'') old"
  proof
    assume \<open>startswith ((c # M) @ '' struct {'') old\<close>
    then have \<open>prefix old ((c # M) @ '' struct {'')\<close>
      by (simp add: startswith_prefix)
    then have \<open>prefix old (c # M) \<or> (\<exists>us. old = (c # M) @ us \<and> prefix us '' struct {'')\<close>
      unfolding prefix_append .
    then consider "prefix old (c # M)"
      | us where \<open>old = (c # M) @ us\<close> \<open>prefix us '' struct {''\<close>
      by blast
    then show False
    proof cases
      case 1
      then have "length old \<le> length (c # M)" by (rule prefix_length_le)
      with Cons.prems show False by simp
    next
      case 2
      with Cons.prems have "us \<noteq> []" by auto
      with 2(2) have "hd us = CHR '' ''"
        by (cases us) (auto simp: prefix_Cons)
      with \<open>us \<noteq> []\<close> 2(1) have "CHR '' '' \<in> set old"
        by (cases us) auto
      with assms(3) show False by simp
    qed
  qed
  then have \<open>repl old new ((c # M) @ '' struct {'') = c # repl old new (M @ '' struct {'')\<close>
    by simp
  with Cons show ?case by simp
qed

lemma replace_header:
  assumes \<open>d = ''app_'' @ lower N @ ''s''\<close> and "CHR '' '' \<notin> set N"
  shows \<open>py_replace d t (''type '' @ N @ '' struct {'') = ''type '' @ N @ '' struct {''\<close>
proof -
  note f = default_name_facts[OF assms]
  have \<open>repl d t (''type '' @ (N @ '' struct {'')) = ''type '' @ repl d t (N @ '' struct {'')\<close>
    by (rule repl_skip_prefix) (use f in auto)
  moreover have \<open>repl d t (N @ '' struct {'') = N @ '' struct {''\<close>
    by (rule repl_header_tail) (use f in auto)
  ultimately show ?thesis using f(1) by (simp add: py_replace_def)
qed

lemma replace_keeps_prefix:
  assumes "d \<noteq> []" and "hd d \<notin> set u"
  shows "py_replace d t (u @ v) = u @ py_replace d t v"
  using assms by (simp add: py_replace_def repl_skip_prefix)

lemma replace_tab_line:
  assumes "d \<noteq> []" and "hd d = CHR ''a''" and "startswith b [tab]"
  shows "startswith (py_replace d t b) [tab]"
proof -
  from assms(3) obtain b' where b: "b = [tab] @ b'"
    by (cases b) auto
  have "py_replace d t ([tab] @ b') = [tab] @ py_replace d t b'"
    by (rule replace_keeps_prefix) (use assms in \<open>auto simp: tab_def\<close>)
  with b show ?thesis by simp
qed

lemma tab_line_safe: "startswith b [tab] \<Longrightarrow> safe_line s b"
  by (cases b) (auto simp: safe_line_def user_header_def user_accessor_def tab_def)

lemma header_safe:
  \<open>(N = ''User'' \<longrightarrow> found_user_table s) \<Longrightarrow> safe_line s (''type '' @ N @ '' struct {'')\<close>
  by (auto simp: safe_line_def user_header_def user_accessor_def)

lemma replace_fixed_lines:
  assumes "d \<noteq> []" and "hd d = CHR ''a''"
  shows \<open>py_replace d t ''}'' = ''}''\<close> and "py_replace d t [] = []"
    and \<open>\<exists>r. py_replace d t (''func ('' @ N @ '') TableName() string {'') = ''func ('' @ r\<close>
proof -
  have \<open>py_replace d t (''}'' @ []) = ''}'' @ py_replace d t []\<close>
    by (rule replace_keeps_prefix) (use assms in auto)
  moreover show "py_replace d t [] = []"
    using assms by (simp add: py_replace_def)
  ultimately show \<open>py_replace d t ''}'' = ''}''\<close> by simp
  have \<open>py_replace d t (''func ('' @ (N @ '') TableName() string {''))
        = ''func ('' @ py_replace d t (N @ '') TableName() string {'')\<close>
    by (rule replace_keeps_prefix) (use assms in auto)
  then show \<open>\<exists>r. py_replace d t (''func ('' @ N @ '') TableName() string {'') = ''func ('' @ r\<close>
    by auto
qed

lemma fixed_lines_safe:
  \<open>safe_line s ''}''\<close> "safe_line s []" \<open>safe_line s (''func ('' @ r)\<close>
  by (auto simp: safe_line_def user_header_def user_accessor_def)

lemma safe_line_mono:
  "safe_line s x \<Longrightarrow> (found_user_table s \<longrightarrow> found_user_table s') \<Longrightarrow> safe_line s' x"
  by (auto simp: safe_line_def)

lemma close_safe:
  assumes inv: "scan_inv s" and call: "in_model_def s \<or> \<not> last_model_closed s"
  shows "\<forall>x \<in> set (out_lines (close_model_def s)). safe_line s x"
proof (cases "in_model_def s")
  case False
  with inv call have "current_model s = []" "\<not> custom_table_name s"
    by (auto simp: scan_inv_def)
  with inv show ?thesis
    by (auto simp: close_model_def_out scan_inv_def fixed_lines_safe)
next
  case True
  with inv have ok: "buffer_ok s" and outs: "\<forall>x \<in> set (out_lines s). safe_line s x"
    by (auto simp: scan_inv_def)
  from ok obtain body where d: \<open>default_table_name s = ''app_'' @ lower (model_name s) @ ''s''\<close>
    and nb: "CHR '' '' \<notin> set (model_name s)"
    and usr: \<open>model_name s = ''User'' \<longrightarrow> found_user_table s\<close>
    and cm: \<open>current_model s = (''type '' @ model_name s @ '' struct {'') # body\<close>
    and body: "\<forall>b \<in> set body. startswith b [tab]"
    by (auto simp: buffer_ok_def)
  note f = default_name_facts[OF d nb]
  have hdr: \<open>safe_line s (''type '' @ model_name s @ '' struct {'')\<close>
    using usr by (rule header_safe)
  show ?thesis
  proof (cases "custom_table_name s")
    case False
    with outs cm body hdr show ?thesis
      by (auto simp: close_model_def_out fixed_lines_safe tab_line_safe)
  next
    case True
    let ?r = "py_replace (default_table_name s) (table_name s)"
    define H where \<open>H = ''type '' @ model_name s @ '' struct {''\<close>
    define A where \<open>A = ''func ('' @ model_name s @ '') TableName() string {''\<close>
    define R where \<open>R = [tab] @ ''return "'' @ table_name s @ ''"''\<close>
    have out: \<open>out_lines (close_model_def s)
               = out_lines s @ map ?r (H # body @ [''}'', [], A, R, ''}'', []])\<close>
      using True cm by (simp add: close_model_def_out H_def A_def R_def)
    have "?r H = H"
      unfolding H_def by (rule replace_header[OF d nb])
    with hdr have s_hdr: "safe_line s (?r H)"
      by (simp add: H_def)
    have s_body: "safe_line s (?r b)" if "b \<in> set body" for b
      using that body f(1,2) by (auto intro!: tab_line_safe replace_tab_line)
    have s_ret: "safe_line s (?r R)"
      unfolding R_def using f(1,2) by (auto intro!: tab_line_safe replace_tab_line)
    obtain r where \<open>?r A = ''func ('' @ r\<close>
      unfolding A_def using replace_fixed_lines(3)[OF f(1,2)] by blast
    then have s_fun: "safe_line s (?r A)"
      using fixed_lines_safe(3)[of s r] by simp
    have s_fix: \<open>safe_line s (?r ''}'')\<close> "safe_line s (?r [])"
      using replace_fixed_lines(1,2)[OF f(1,2)] fixed_lines_safe(1,2)[of s] by auto
    from outs s_hdr s_body s_ret s_fun s_fix show ?thesis
      unfolding out by auto
  qed
qed

section \<open>The invariant holds along the scan\<close>

lemma scan_inv_init: "scan_inv init"
  by (simp add: scan_inv_def init_def)

lemma scan_inv_bookkeeping:
  "scan_inv (s\<lparr>prev_line := p, lines := n\<rparr>) = scan_inv s"
  by (simp add: scan_inv_def buffer_ok_def safe_line_def)

lemma close_model_def_flag:
  "out_lines (close_model_def (s\<lparr>in_model_def := b\<rparr>)) = out_lines (close_model_def s)"
  by (simp add: close_model_def_def Let_def)

lemma scan_inv_def_close:
  assumes "scan_inv s" and "in_model_def s"
  shows "scan_inv (close_and_reset (s\<lparr>in_model_def := False\<rparr>))"
proof -
  let ?s1 = "close_and_reset (s\<lparr>in_model_def := False\<rparr>)"
  from close_and_reset_keeps[of "s\<lparr>in_model_def := False\<rparr>"]
  have k: "\<not> in_model_def ?s1" "last_model_closed ?s1" "current_model ?s1 = []"
    "out_lines ?s1 = out_lines (close_model_def s)" "found_user_table ?s1 = found_user_table s"
    by (simp_all add: close_model_def_flag)
  from close_safe[OF assms(1)] assms(2)
  have "\<forall>x \<in> set (out_lines (close_model_def s)). safe_line s x" by simp
  with k show ?thesis
    by (simp add: scan_inv_def safe_line_def)
qed

lemma scan_inv_open:
  assumes inv: "scan_inv s" and op: "open_model s l = Inr s'"
  shows "scan_inv s'"
proof -
  define s1 where "s1 = (if in_model_def s then close_and_reset s else s)"
  have outs: "\<forall>x \<in> set (out_lines s1). safe_line s x"
  proof (cases "in_model_def s")
    case True
    with close_safe[OF inv] close_and_reset_keeps[of s] show ?thesis
      by (simp add: s1_def)
  next
    case False
    with inv show ?thesis by (simp add: s1_def scan_inv_def)
  qed
  have cm: "current_model s1 = []"
    using inv close_and_reset_keeps[of s] by (auto simp: s1_def scan_inv_def)
  have fu: "found_user_table s1 = found_user_table s"
    using close_and_reset_keeps[of s] by (simp add: s1_def)
  from op obtain name where name: "model_name_of l = Some name"
    by (cases "model_name_of l") (auto simp: open_model_def Let_def)
  with op have s': \<open>s' = s1\<lparr>in_model_def := True,
                     last_model_closed := False,
                     model_name := name,
                     found_user_table := (found_user_table s1 \<or> name = ''User''),
                     found_group_table := (found_group_table s1 \<or> name = ''Group''),
                     table_name := ''app_'' @ lower name @ ''s'',
                     default_table_name := ''app_'' @ lower name @ ''s'',
                     custom_table_name := False,
                     current_model := current_model s1 @ [''type '' @ name @ '' struct {'']\<rparr>\<close>
    by (simp add: open_model_def Let_def s1_def[symmetric])
  have nb: "CHR '' '' \<notin> set name"
    using name by (rule model_name_no_blank)
  have "buffer_ok s'"
    unfolding buffer_ok_def s' using nb cm by simp
  moreover have "\<forall>x \<in> set (out_lines s'). safe_line s' x"
    using outs fu unfolding s' by (auto simp: safe_line_def)
  moreover have "in_model_def s'"
    unfolding s' by simp
  ultimately show ?thesis
    by (simp add: scan_inv_def)
qed

lemma scan_inv_body:
  assumes inv: "scan_inv s" and open_: "in_model_def s" and b: "body_line s l = Inr s'"
  shows "scan_inv s'"
proof -
  note k = body_line_keeps[OF b]
  from body_line_buffer[OF b] obtain xs where xs: "current_model s' = current_model s @ xs"
    "\<forall>x \<in> set xs. startswith x [tab]" by blast
  from inv open_ have ok: "buffer_ok s" and outs: "\<forall>x \<in> set (out_lines s). safe_line s x"
    by (auto simp: scan_inv_def)
  from ok xs k have "buffer_ok s'"
    by (auto simp: buffer_ok_def)
  moreover from outs k have "\<forall>x \<in> set (out_lines s'). safe_line s' x"
    by (simp add: safe_line_def)
  moreover from k open_ have "in_model_def s'" by simp
  ultimately show ?thesis
    by (simp add: scan_inv_def)
qed

lemma scan_inv_step:
  assumes inv: "scan_inv s" and st: "step s raw = Inr s'"
  shows "scan_inv s'"
proof -
  define s1 where \<open>s1 = (if startswith raw ''def '' \<and> in_model_def s
                         then close_and_reset (s\<lparr>in_model_def := False\<rparr>) else s)\<close>
  have inv1: "scan_inv s1"
    using inv by (simp add: s1_def scan_inv_def_close)
  from st have cases: \<open>(case (if is_class_start (strip raw) then open_model s1 (strip raw)
               else if in_model_def s1 then body_line s1 (strip raw)
               else Inr s1) of
           Inl e \<Rightarrow> Inl e
         | Inr s2 \<Rightarrow> Inr (s2\<lparr>prev_line := strip raw, lines := lines s2 + 1\<rparr>)) = Inr s'\<close>
    unfolding step_def Let_def s1_def[symmetric] .
  then obtain s2 where s2: \<open>(if is_class_start (strip raw) then open_model s1 (strip raw)
               else if in_model_def s1 then body_line s1 (strip raw)
               else Inr s1) = Inr s2\<close>
    and s': "s' = s2\<lparr>prev_line := strip raw, lines := lines s2 + 1\<rparr>"
    by (auto split: sum.splits)
  have "scan_inv s2"
  proof (cases "is_class_start (strip raw)")
    case True
    with s2 have "open_model s1 (strip raw) = Inr s2" by simp
    with inv1 show ?thesis by (rule scan_inv_open)
  next
    case False
    show ?thesis
    proof (cases "in_model_def s1")
      case True
      with s2 False have "body_line s1 (strip raw) = Inr s2" by simp
      with inv1 True show ?thesis by (rule scan_inv_body)
    next
      case nin: False
      with s2 False inv1 show ?thesis by simp
    qed
  qed
  then show ?thesis
    by (simp add: s' scan_inv_bookkeeping)
qed

lemma scan_inv_scan:
  assumes "scan_inv s" and "scan s in_lines = Inr s'"
  shows "scan_inv s'"
  using assms
proof (induction in_lines arbitrary: s)
  case Nil
  then show ?case by simp
next
  case (Cons raw in_lines)
  from Cons.prems(2) obtain s1 where st: "step s raw = Inr s1" and sc: "scan s1 in_lines = Inr s'"
    by (auto split: sum.splits)
  from Cons.prems(1) st have "scan_inv s1" by (rule scan_inv_step)
  then show ?case using sc by (rule Cons.IH)
qed

lemma finish_safe:
  assumes "scan_inv s"
  shows "\<forall>x \<in> set (out_lines (finish s)). safe_line s x"
proof (cases "last_model_closed s")
  case True
  with assms show ?thesis by (simp add: finish_def scan_inv_def)
next
  case False
  with close_safe[OF assms] show ?thesis by (simp add: finish_def)
qed

lemma finish_keeps:
  "found_user_table (finish s) = found_user_table s
   \<and> found_group_table (finish s) = found_group_table s
   \<and> got_custom_tables (finish s) = got_custom_tables s \<and> errors (finish s) = errors s"
  by (simp add: finish_def close_model_def_keeps)

lemma scaffolding_counts:
  "count_list (py_split nl IMPORTS) user_header = 0"
  "count_list (py_split nl IMPORTS) user_accessor = 0"
  "count_list (py_split nl TABLE_HELPER) user_header = 0"
  "count_list (py_split nl TABLE_HELPER) user_accessor = 0"
  "count_list (py_split nl GROUP_MODEL) user_header = 0"
  "count_list (py_split nl GROUP_MODEL) user_accessor = 0"
  "count_list (py_split nl USER_MODEL) user_header = 1"
  "count_list (py_split nl USER_MODEL) user_accessor = 1"
  by code_simp+

lemma convert_lines_Inr:
  assumes "convert_lines in_lines h u g = Inr out"
  obtains s where "scan init in_lines = Inr s" and "out = final_lines (finish s) h u g"
  using assms by (auto simp: convert_lines_def split: sum.splits)

section \<open>The default identity and group declarations\<close>

text \<open>
  Claim C9: after a scan that ran to the end, \<open>found_user_table\<close> is set exactly when
  some input line was taken as a declaration start whose extracted name is exactly
  \<open>User\<close>, and \<open>found_group_table\<close> exactly when one has the name \<open>Group\<close>. So for
  an input whose declarations all have other names (such as \<open>UserProfile\<close> or \<open>Users\<close>)
  the output holds the default \<open>User\<close> declaration whenever its toggle is on, and likewise
  the default \<open>Group\<close> declaration.
\<close>

theorem default_declarations_for_other_names:
  assumes "scan init in_lines = Inr s"
  shows \<open>(found_user_table s \<longleftrightarrow> (\<exists>raw \<in> set in_lines. declares ''User'' raw))
       \<and> (found_group_table s \<longleftrightarrow> (\<exists>raw \<in> set in_lines. declares ''Group'' raw))
       \<and> ((\<forall>raw \<in> set in_lines. \<not> declares ''User'' raw) \<longrightarrow>
            (\<exists>pre post. convert_lines in_lines h True g
                          = Inr (pre @ py_split nl USER_MODEL @ post)))
       \<and> ((\<forall>raw \<in> set in_lines. \<not> declares ''Group'' raw) \<longrightarrow>
            (\<exists>pre post. convert_lines in_lines h u True
                          = Inr (pre @ py_split nl GROUP_MODEL @ post)))\<close>
proof -
  from scan_found[OF assms]
  have fu: \<open>found_user_table s \<longleftrightarrow> (\<exists>raw \<in> set in_lines. declares ''User'' raw)\<close>
    and fg: \<open>found_group_table s \<longleftrightarrow> (\<exists>raw \<in> set in_lines. declares ''Group'' raw)\<close>
    by (simp_all add: init_def)
  have usr: \<open>\<exists>pre post. convert_lines in_lines h True g
                          = Inr (pre @ py_split nl USER_MODEL @ post)\<close>
    if \<open>\<forall>raw \<in> set in_lines. \<not> declares ''User'' raw\<close>
  proof -
    from that fu have "\<not> found_user_table (finish s)" by (simp add: finish_keeps)
    then have "convert_lines in_lines h True g
      = Inr (((if h then py_split nl IMPORTS else [])
              @ (if got_custom_tables (finish s) then py_split nl TABLE_HELPER else []))
             @ py_split nl USER_MODEL
             @ ((if \<not> found_group_table (finish s) \<and> g then py_split nl GROUP_MODEL else [])
                @ out_lines (finish s)))"
      using assms by (simp add: convert_lines_def final_lines_def out_prefix_def)
    then show ?thesis by blast
  qed
  have grp: \<open>\<exists>pre post. convert_lines in_lines h u True
                          = Inr (pre @ py_split nl GROUP_MODEL @ post)\<close>
    if \<open>\<forall>raw \<in> set in_lines. \<not> declares ''Group'' raw\<close>
  proof -
    from that fg have "\<not> found_group_table (finish s)" by (simp add: finish_keeps)
    then have "convert_lines in_lines h u True
      = Inr (((if h then py_split nl IMPORTS else [])
              @ (if got_custom_tables (finish s) then py_split nl TABLE_HELPER else [])
              @ (if \<not> found_user_table (finish s) \<and> u then py_split nl USER_MODEL else []))
             @ py_split nl GROUP_MODEL
             @ out_lines (finish s))"
      using assms by (simp add: convert_lines_def final_lines_def out_prefix_def)
    then show ?thesis by blast
  qed
  from fu fg usr grp show ?thesis by blast
qed

lemma other_names_reached: "scan init other_names = Inr other_names_scanned"
  by code_simp

theorem default_declarations_for_other_names_witness:
  \<open>scan init other_names = Inr other_names_scanned
   \<and> \<not> declares ''User'' ''class UserProfile(models.Model):''
   \<and> \<not> declares ''User'' ''class Users(models.Model):''
   \<and> \<not> declares ''Group'' ''class UserProfile(models.Model):''
   \<and> \<not> declares ''Group'' ''class Users(models.Model):''
   \<and> declares ''UserProfile'' ''class UserProfile(models.Model):''
   \<and> declares ''Users'' ''class Users(models.Model):''
   \<and> \<not> found_user_table other_names_scanned \<and> \<not> found_group_table other_names_scanned
   \<and> convert_lines other_names False True True
       = Inr (py_split nl USER_MODEL @ py_split nl GROUP_MODEL
              @ [''type UserProfile struct {'', ''}'', [], ''type Users struct {'', ''}'', []])\<close>
proof -
  have sc: "scan init other_names = Inr other_names_scanned" by code_simp
  have nu: \<open>\<forall>raw \<in> set other_names. \<not> declares ''User'' raw\<close> by code_simp
  have ng: \<open>\<forall>raw \<in> set other_names. \<not> declares ''Group'' raw\<close> by code_simp
  from default_declarations_for_other_names[OF sc, of False True True] nu ng
  have flags: "\<not> found_user_table other_names_scanned"
    "\<not> found_group_table other_names_scanned"
    and \<open>\<exists>pre post. convert_lines other_names False True True
                       = Inr (pre @ py_split nl USER_MODEL @ post)\<close>
    and \<open>\<exists>pre post. convert_lines other_names False True True
                       = Inr (pre @ py_split nl GROUP_MODEL @ post)\<close>
    by blast+
  have ev: \<open>convert_lines other_names False True True
       = Inr (py_split nl USER_MODEL @ py_split nl GROUP_MODEL
              @ [''type UserProfile struct {'', ''}'', [], ''type Users struct {'', ''}'', []])\<close>
    by code_simp
  have d: \<open>\<not> declares ''User'' ''class UserProfile(models.Model):''\<close>
    \<open>\<not> declares ''User'' ''class Users(models.Model):''\<close>
    \<open>\<not> declares ''Group'' ''class UserProfile(models.Model):''\<close>
    \<open>\<not> declares ''Group'' ''class Users(models.Model):''\<close>
    \<open>declares ''UserProfile'' ''class UserProfile(models.Model):''\<close>
    \<open>declares ''Users'' ''class Users(models.Model):''\<close>
    by code_simp+
  from sc d flags ev show ?thesis by blast
qed

text \<open>
  Claim C8: for every input and every value of the three toggles, whenever the conversion
  runs to the end: if no input line declares \<open>User\<close> and auto-add-identity is on, the
  output holds the block \<open>USER_MODEL\<close>, and its header line and its accessor line each
  occur exactly once in the whole output; if auto-add-identity is off, the accessor line
  of the default identity declaration occurs nowhere, nor does its header line when the
  input declares no \<open>User\<close>. The group toggle \<open>g\<close> is arbitrary in both cases.
\<close>

theorem default_identity_declaration:
  assumes "convert_lines in_lines h u g = Inr out"
  shows \<open>(u \<and> (\<forall>raw \<in> set in_lines. \<not> declares ''User'' raw) \<longrightarrow>
            count_list out user_header = 1 \<and> count_list out user_accessor = 1
            \<and> (\<exists>pre post. out = pre @ py_split nl USER_MODEL @ post))
       \<and> (\<not> u \<longrightarrow>
            count_list out user_accessor = 0
            \<and> ((\<forall>raw \<in> set in_lines. \<not> declares ''User'' raw) \<longrightarrow>
                  count_list out user_header = 0))\<close>
proof -
  from assms obtain s where sc: "scan init in_lines = Inr s"
    and out: "out = final_lines (finish s) h u g"
    by (rule convert_lines_Inr)
  from scan_inv_scan[OF scan_inv_init sc] have "scan_inv s" .
  from finish_safe[OF this]
  have acc: "user_accessor \<notin> set (out_lines (finish s))"
    and hdr: "\<not> found_user_table s \<Longrightarrow> user_header \<notin> set (out_lines (finish s))"
    by (auto simp: safe_line_def)
  from scan_found[OF sc]
  have fu: \<open>found_user_table s \<longleftrightarrow> (\<exists>raw \<in> set in_lines. declares ''User'' raw)\<close>
    by (simp add: init_def)
  have c_acc: "count_list (out_lines (finish s)) user_accessor = 0"
    using acc by (simp add: count_list_0_iff)
  have c_hdr: "count_list (out_lines (finish s)) user_header = 0"
    if "\<not> found_user_table s"
    using hdr[OF that] by (simp add: count_list_0_iff)
  have on: \<open>count_list out user_header = 1 \<and> count_list out user_accessor = 1
            \<and> (\<exists>pre post. out = pre @ py_split nl USER_MODEL @ post)\<close>
    if u and nd: \<open>\<forall>raw \<in> set in_lines. \<not> declares ''User'' raw\<close>
  proof -
    from nd fu have nf: "\<not> found_user_table s" by simp
    with \<open>u\<close> have o: "out
      = ((if h then py_split nl IMPORTS else [])
              @ (if got_custom_tables (finish s) then py_split nl TABLE_HELPER else []))
             @ py_split nl USER_MODEL
             @ ((if \<not> found_group_table (finish s) \<and> g then py_split nl GROUP_MODEL else [])
                @ out_lines (finish s))"
      by (simp add: out final_lines_def out_prefix_def finish_keeps)
    then have "\<exists>pre post. out = pre @ py_split nl USER_MODEL @ post" by blast
    moreover from o c_acc c_hdr[OF nf]
    have "count_list out user_header = 1" "count_list out user_accessor = 1"
      by (simp_all add: scaffolding_counts)
    ultimately show ?thesis by simp
  qed
  have off: \<open>count_list out user_accessor = 0
            \<and> ((\<forall>raw \<in> set in_lines. \<not> declares ''User'' raw) \<longrightarrow>
                  count_list out user_header = 0)\<close>
    if "\<not> u"
  proof -
    from that have o: "out
      = (if h then py_split nl IMPORTS else [])
        @ (if got_custom_tables (finish s) then py_split nl TABLE_HELPER else [])
        @ (if \<not> found_group_table (finish s) \<and> g then py_split nl GROUP_MODEL else [])
        @ out_lines (finish s)"
      by (simp add: out final_lines_def out_prefix_def)
    from o c_acc have "count_list out user_accessor = 0"
      by (simp add: scaffolding_counts)
    moreover have "count_list out user_header = 0"
      if \<open>\<forall>raw \<in> set in_lines. \<not> declares ''User'' raw\<close>
    proof -
      from that fu have "\<not> found_user_table s" by simp
      from o c_hdr[OF this] show ?thesis
        by (simp add: scaffolding_counts)
    qed
    ultimately show ?thesis by simp
  qed
  from on off show ?thesis by blast
qed

theorem default_identity_declaration_witness:
  \<open>convert_lines item_lines False True False
     = Inr (py_split nl USER_MODEL
            @ [''type Item struct {'',
               [tab] @ ''Name'' @ [tab, tab] @ ''string'' @ [tab] @ ''`gorm:"column:name"`'',
               ''}'', []])
   \<and> \<not> declares ''User'' ''class Item(models.Model):''
   \<and> \<not> declares ''User'' ''    name = models.CharField(max_length=10)''
   \<and> count_list (py_split nl USER_MODEL
            @ [''type Item struct {'',
               [tab] @ ''Name'' @ [tab, tab] @ ''string'' @ [tab] @ ''`gorm:"column:name"`'',
               ''}'', []]) user_header = 1
   \<and> count_list (py_split nl USER_MODEL
            @ [''type Item struct {'',
               [tab] @ ''Name'' @ [tab, tab] @ ''string'' @ [tab] @ ''`gorm:"column:name"`'',
               ''}'', []]) user_accessor = 1
   \<and> convert_lines item_lines False False True
     = Inr (py_split nl GROUP_MODEL
            @ [''type Item struct {'',
               [tab] @ ''Name'' @ [tab, tab] @ ''string'' @ [tab] @ ''`gorm:"column:name"`'',
               ''}'', []])
   \<and> count_list (py_split nl GROUP_MODEL
            @ [''type Item struct {'',
               [tab] @ ''Name'' @ [tab, tab] @ ''string'' @ [tab] @ ''`gorm:"column:name"`'',
               ''}'', []]) user_accessor = 0
   \<and> count_list (py_split nl GROUP_MODEL
            @ [''type Item struct {'',
               [tab] @ ''Name'' @ [tab, tab] @ ''string'' @ [tab] @ ''`gorm:"column:name"`'',
               ''}'', []]) user_header = 0\<close>
proof -
  have on: \<open>convert_lines item_lines False True False
     = Inr (py_split nl USER_MODEL
            @ [''type Item struct {'',
               [tab] @ ''Name'' @ [tab, tab] @ ''string'' @ [tab] @ ''`gorm:"column:name"`'',
               ''}'', []])\<close>
    by code_simp
  have off: \<open>convert_lines item_lines False False True
     = Inr (py_split nl GROUP_MODEL
            @ [''type Item struct {'',
               [tab] @ ''Name'' @ [tab, tab] @ ''string'' @ [tab] @ ''`gorm:"column:name"`'',
               ''}'', []])\<close>
    by code_simp
  have nu: \<open>\<forall>raw \<in> set item_lines. \<not> declares ''User'' raw\<close> by code_simp
  from default_identity_declaration[OF on] nu
  have c1: \<open>count_list (py_split nl USER_MODEL
            @ [''type Item struct {'',
               [tab] @ ''Name'' @ [tab, tab] @ ''string'' @ [tab] @ ''`gorm:"column:name"`'',
               ''}'', []]) user_header = 1\<close>
    and c2: \<open>count_list (py_split nl USER_MODEL
            @ [''type Item struct {'',
               [tab] @ ''Name'' @ [tab, tab] @ ''string'' @ [tab] @ ''`gorm:"column:name"`'',
               ''}'', []]) user_accessor = 1\<close>
    by blast+
  from default_identity_declaration[OF off] nu
  have c3: \<open>count_list (py_split nl GROUP_MODEL
            @ [''type Item struct {'',
               [tab] @ ''Name'' @ [tab, tab] @ ''string'' @ [tab] @ ''`gorm:"column:name"`'',
               ''}'', []]) user_accessor = 0\<close>
    and c4: \<open>count_list (py_split nl GROUP_MODEL
            @ [''type Item struct {'',
               [tab] @ ''Name'' @ [tab, tab] @ ''string'' @ [tab] @ ''`gorm:"column:name"`'',
               ''}'', []]) user_header = 0\<close>
    by blast+
  have d: \<open>\<not> declares ''User'' ''class Item(models.Model):''\<close>
    \<open>\<not> declares ''User'' ''    name = models.CharField(max_length=10)''\<close>
    by code_simp+
  from on off d c1 c2 c3 c4 show ?thesis by blast
qed

end
